theory Spec2Isabelle
  imports Complex_Main "HOL-Library.Sublist"
begin

section \<open>Common vocabulary\<close>

text \<open>
  A JavaScript string is modelled as a \<open>string\<close>: one \<open>char\<close> stands for one UTF-16
  code unit, so \<open>length\<close> is what \<^verbatim>\<open>String.prototype.length\<close> counts and \<open>@\<close> is
  concatenation. All literals of the source are ASCII. Text that went through
  \<^verbatim>\<open>cleanText\<close> is ASCII as well (every other character is removed there).
\<close>

definition newline :: string where
  "newline = [CHR 0x0A]"

text \<open>
  \<^verbatim>\<open>String.prototype.trim\<close> removes white space and line terminators from both ends.
  The code units below are the ones of that class which fit a \<open>char\<close>: TAB, LF, VT,
  FF, CR, SPACE and NBSP.
\<close>

definition isWhiteSpace :: "char \<Rightarrow> bool" where
  "isWhiteSpace c =
     (c = CHR 0x09 \<or> c = CHR 0x0A \<or> c = CHR 0x0B \<or> c = CHR 0x0C \<or> c = CHR 0x0D
      \<or> c = CHR 0x20 \<or> c = CHR 0xA0)"

definition trim :: "string \<Rightarrow> string" where
  "trim s = rev (dropWhile isWhiteSpace (rev (dropWhile isWhiteSpace s)))"

text \<open>\<^verbatim>\<open>Array.prototype.join\<close>.\<close>

fun join :: "string \<Rightarrow> string list \<Rightarrow> string" where
  "join sep [] = []"
| "join sep [x] = x"
| "join sep (x # y # ys) = x @ sep @ join sep (y # ys)"

text \<open>\<^verbatim>\<open>String.prototype.includes\<close>: \<open>sub\<close> occurs in \<open>s\<close> as a contiguous run.\<close>

fun includes_str :: "string \<Rightarrow> string \<Rightarrow> bool" where
  "includes_str [] sub = (sub = [])"
| "includes_str (c # cs) sub = (prefix sub (c # cs) \<or> includes_str cs sub)"

text \<open>Decimal rendering of a number inside a template literal.\<close>

definition digit :: "nat \<Rightarrow> char" where
  "digit d = char_of (48 + d)"

fun showNat :: "nat \<Rightarrow> string" where
  "showNat n = (if n < 10 then [digit n] else showNat (n div 10) @ [digit (n mod 10)])"

declare showNat.simps [simp del]

text \<open>
  A call of an external service either throws (with the message of the error) or
  returns a value.
\<close>

datatype 'a outcome = Throws string | Returns 'a

text \<open>
  The errors the code raises itself. \<open>ServiceError m\<close> is an error thrown by an external
  library call with message \<open>m\<close>; the wrapping constructors carry the error whose
  message the source interpolates.
  \<^item> \<open>TextEmpty\<close>: "Text cannot be empty"
  \<^item> \<open>ApiKeyMissing\<close>: "JINA_API_KEY not configured"
  \<^item> \<open>InvalidResponseFormat\<close>: "Invalid response format from Jina API"
  \<^item> \<open>EmbeddingFailed n e\<close>: "Failed to generate embedding after n attempts: e.message"
  \<^item> \<open>TextsNotArray\<close>: "Texts must be a non-empty array"
  \<^item> \<open>EmptyGeminiResponse\<close>: "Empty response from Gemini"
  \<^item> \<open>GenerationFailed e\<close>: "Failed to generate response: e.message"
  \<^item> \<open>RAGProcessingFailed e\<close>: "RAG processing failed: e.message"
\<close>

datatype error =
    TextEmpty
  | ApiKeyMissing
  | InvalidResponseFormat
  | ServiceError string
  | EmbeddingFailed nat error
  | TextsNotArray
  | EmptyGeminiResponse
  | GenerationFailed error
  | RAGProcessingFailed error

fun message :: "error \<Rightarrow> string" where
  "message TextEmpty = ''Text cannot be empty''"
| "message ApiKeyMissing = ''JINA_API_KEY not configured''"
| "message InvalidResponseFormat = ''Invalid response format from Jina API''"
| "message (ServiceError m) = m"
| "message (EmbeddingFailed n e) =
     ''Failed to generate embedding after '' @ showNat n @ '' attempts: '' @ message e"
| "message TextsNotArray = ''Texts must be a non-empty array''"
| "message EmptyGeminiResponse = ''Empty response from Gemini''"
| "message (GenerationFailed e) = ''Failed to generate response: '' @ message e"
| "message (RAGProcessingFailed e) = ''RAG processing failed: '' @ message e"

type_synonym embedding = "real list"

section \<open>Data model\<close>

text \<open>
  A search hit as \<^verbatim>\<open>VectorStoreService.searchSimilar\<close> returns it (the field
  \<^verbatim>\<open>text\<close> is \<open>passage\<close> here, \<^verbatim>\<open>id\<close> is \<open>chunkId\<close>; the \<^verbatim>\<open>metadata\<close> payload is
  carried along unread by the code below and is left out). Scores are finite
  numbers; the code only compares and subtracts them, so they are reals.
\<close>

record retrieved =
  chunkId :: string
  score :: real
  passage :: string
  articleTitle :: string
  articleUrl :: string
  source :: string
  pubDate :: string

text \<open>One entry of the \<^verbatim>\<open>sources\<close> array built by \<^verbatim>\<open>prepareSources\<close>.\<close>

record citation =
  s_title :: string
  s_url :: string
  s_source :: string
  s_pubDate :: string
  relevanceScore :: real

record metrics =
  processingTime :: int
  chunksFound :: nat
  chunksUsed :: nat
  contextLength :: nat

text \<open>What \<^verbatim>\<open>processQuery\<close> resolves to.\<close>

record rag_result =
  response :: string
  sources :: "citation list"
  metadata :: metrics

text \<open>The parameters of the INSERT into \<^verbatim>\<open>chat_interactions\<close>.\<close>

record interaction =
  i_sessionId :: string
  i_query :: string
  i_response :: string
  i_sources :: "citation list"
  i_metadata :: metrics

record filters =
  f_source :: "string option"
  f_dateFrom :: "string option"
  f_dateTo :: "string option"

text \<open>The third argument of \<^verbatim>\<open>processQuery\<close>; a missing property is \<open>None\<close>.\<close>

record options =
  o_maxSources :: "nat option"
  o_similarityThreshold :: "real option"
  o_filters :: "filters option"

text \<open>Events published on a socket.io room.\<close>

datatype channel_event =
    MessageChunk string string bool "string option"
      \<comment> \<open>message-chunk: sessionId, chunk, isComplete, fullResponse (when present)\<close>
  | MessageError string string
      \<comment> \<open>message-error: sessionId, error\<close>

text \<open>
  The externally visible actions of the code, in the order they are issued:
  \<^item> \<open>Post t\<close>: a request to the embedding provider with input \<open>[t]\<close>;
  \<^item> \<open>Sleep ms\<close>: awaiting a \<^verbatim>\<open>setTimeout\<close> of \<open>ms\<close> milliseconds;
  \<^item> \<open>Search v k f\<close>: \<^verbatim>\<open>searchInVectorDB(v, k, f)\<close>;
  \<^item> \<open>GenerateContent p\<close>, \<open>GenerateContentStream p\<close>: a call of the generative model
    with prompt \<open>p\<close>;
  \<^item> \<open>DbQuery i\<close>: the INSERT of \<open>i\<close> sent to the database;
  \<^item> \<open>Emit room ev\<close>: \<^verbatim>\<open>io.to(room).emit(...)\<close>.
\<close>

datatype effect =
    Post string
  | Sleep nat
  | Search "embedding option" nat "filters option"
  | GenerateContent string
  | GenerateContentStream string
  | DbQuery interaction
  | Emit string channel_event

section \<open>Embedding service (services/embeddings.js)\<close>

text \<open>
  \<^verbatim>\<open>jinaApiKey\<close> is the environment variable, \<open>None\<close> when it is not set. The
  constructor fixes the other two fields.
\<close>

record EmbeddingService =
  jinaApiKey :: "string option"
  maxRetries :: nat
  retryDelay :: nat

definition newEmbeddingService :: "string option \<Rightarrow> EmbeddingService" where
  "newEmbeddingService key = \<lparr>jinaApiKey = key, maxRetries = 3, retryDelay = 1000\<rparr>"

text \<open>
  The embedding provider: what \<^verbatim>\<open>axios.post\<close> does for a given input text at a given
  attempt. \<open>Returns (Some v)\<close> is a response whose \<^verbatim>\<open>data.data[0]\<close> is present with
  embedding \<open>v\<close>, \<open>Returns None\<close> a response without it.
\<close>

type_synonym jina = "string \<Rightarrow> nat \<Rightarrow> embedding option outcome"

definition truncatedText :: "string \<Rightarrow> string" where
  "truncatedText t = (if length t > 8000 then take 8000 t @ ''...'' else t)"

text \<open>
  The retry loop \<^verbatim>\<open>for (attempt = 1; attempt <= maxRetries; attempt++)\<close>, over the
  attempt numbers still to run. A value \<open>Inr None\<close> is JavaScript's \<^verbatim>\<open>undefined\<close>, which
  the function returns when the loop ends without a return or a throw.
\<close>

fun attemptLoop ::
  "EmbeddingService \<Rightarrow> jina \<Rightarrow> string \<Rightarrow> nat list \<Rightarrow> (error + embedding option) \<times> effect list"
where
  "attemptLoop svc post t [] = (Inr None, [])"
| "attemptLoop svc post t (attempt # rest) =
     (case post t attempt of
        Returns (Some v) \<Rightarrow> (Inr (Some v), [Post t])
      | r \<Rightarrow>
          (let err = (case r of Throws m \<Rightarrow> ServiceError m | Returns _ \<Rightarrow> InvalidResponseFormat) in
           if attempt = maxRetries svc
           then (Inl (EmbeddingFailed (maxRetries svc) err), [Post t])
           else (case attemptLoop svc post t rest of
                   (res, tr) \<Rightarrow> (res, Post t # Sleep (retryDelay svc * attempt) # tr))))"

definition generateEmbedding ::
  "EmbeddingService \<Rightarrow> jina \<Rightarrow> string \<Rightarrow> (error + embedding option) \<times> effect list"
where
  "generateEmbedding svc post t =
     (if t = [] \<or> length (trim t) = 0 then (Inl TextEmpty, [])
      else if jinaApiKey svc = None \<or> jinaApiKey svc = Some [] then (Inl ApiKeyMissing, [])
      else attemptLoop svc post (truncatedText t) [1 ..< Suc (maxRetries svc)])"

text \<open>
  \<^verbatim>\<open>Promise.all\<close> over the calls of one sub-batch: the values in input order when all
  fulfil. When some reject, the promise rejects with the rejection that settles first
  in time, which depends on the timing of the provider and is not decided here: the
  result \<open>Inl es\<close> lists the rejections of the sub-batch (in input order), and the
  promise rejects with one of them.
\<close>

fun promiseAll :: "(error + 'a) list \<Rightarrow> error list + 'a list" where
  "promiseAll [] = Inr []"
| "promiseAll (Inl e # rs) = (case promiseAll rs of Inl es \<Rightarrow> Inl (e # es) | Inr _ \<Rightarrow> Inl [e])"
| "promiseAll (Inr v # rs) = (case promiseAll rs of Inl es \<Rightarrow> Inl es | Inr vs \<Rightarrow> Inr (v # vs))"

text \<open>The argument of \<^verbatim>\<open>generateBatchEmbeddings\<close>: an array of texts or anything else.\<close>

datatype texts_arg = NotAnArray | Array "string list"

definition batchSize :: nat where
  "batchSize = 10"

text \<open>
  The actions of a batch call. The calls of one sub-batch are started together by
  \<^verbatim>\<open>batch.map\<close> and run concurrently: \<open>Concurrent trs\<close> gives, for each call of the
  sub-batch in input order, the actions that call issues, and says nothing about how
  the actions of different calls interleave. A call goes on issuing its actions
  (retries and waits) even when a sibling has already made the sub-batch reject.
  \<open>Pause ms\<close> is the wait between two sub-batches.
\<close>

datatype batch_effect = Concurrent "effect list list" | Pause nat

text \<open>
  The loop \<^verbatim>\<open>for (i = 0; i < texts.length; i += batchSize)\<close>. A result \<open>Inl es\<close> means
  that the call rejects with one of the errors \<open>es\<close>.
\<close>

function batchLoop ::
  "EmbeddingService \<Rightarrow> jina \<Rightarrow> string list \<Rightarrow> nat \<Rightarrow> embedding option list
     \<Rightarrow> (error list + embedding option list) \<times> batch_effect list"
where
  "batchLoop svc post texts i embeddings =
     (if i < length texts then
        (let batch = take batchSize (drop i texts);
             calls = map (generateEmbedding svc post) batch;
             tr = Concurrent (map snd calls)
         in case promiseAll (map fst calls) of
              Inl es \<Rightarrow> (Inl es, [tr])
            | Inr batchEmbeddings \<Rightarrow>
                (let pause = (if i + batchSize < length texts then [Pause 500] else [])
                 in case batchLoop svc post texts (i + batchSize) (embeddings @ batchEmbeddings) of
                      (res, tr') \<Rightarrow> (res, tr # pause @ tr')))
      else (Inr embeddings, []))"
  by pat_completeness auto
termination
  by (relation "measure (\<lambda>(svc, post, texts, i, embeddings). length texts - i)")
     (auto simp: batchSize_def)

definition generateBatchEmbeddings ::
  "EmbeddingService \<Rightarrow> jina \<Rightarrow> texts_arg
     \<Rightarrow> (error list + embedding option list) \<times> batch_effect list"
where
  "generateBatchEmbeddings svc post arg =
     (case arg of
        NotAnArray \<Rightarrow> (Inl [TextsNotArray], [])
      | Array texts \<Rightarrow>
          if length texts = 0 then (Inl [TextsNotArray], [])
          else batchLoop svc post texts 0 [])"

text \<open>
  The exported helpers create a fresh service, reading the API key from the
  environment.
\<close>

definition generateQueryEmbedding ::
  "string option \<Rightarrow> jina \<Rightarrow> string \<Rightarrow> (error + embedding option) \<times> effect list"
where
  "generateQueryEmbedding key post query =
     generateEmbedding (newEmbeddingService key) post (''Question about recent news: '' @ query)"



declare batchLoop.simps [simp del]


text \<open>
  An attempt fails when the request throws or the response has no \<^verbatim>\<open>data.data[0]\<close>;
  \<open>attemptError\<close> is the error the \<^verbatim>\<open>catch\<close> block then sees.
\<close>

definition attemptFailed :: "embedding option outcome \<Rightarrow> bool" where
  "attemptFailed r = (case r of Returns (Some v) \<Rightarrow> False | _ \<Rightarrow> True)"

definition attemptError :: "embedding option outcome \<Rightarrow> error" where
  "attemptError r = (case r of Throws m \<Rightarrow> ServiceError m | Returns _ \<Rightarrow> InvalidResponseFormat)"

subsection \<open>Sample providers\<close>

definition flakyProvider :: jina where
  "flakyProvider t attempt = (if attempt < 3 then Throws ''ETIMEDOUT'' else Returns (Some [1, 0]))"

definition deadProvider :: jina where
  "deadProvider t attempt = (if attempt = 2 then Returns None else Throws ''ETIMEDOUT'')"

definition okProvider :: jina where
  "okProvider t attempt = Returns (Some [real (length t)])"

definition elevenTexts :: "string list" where
  "elevenTexts = [''a'', ''bb'', ''ccc'', ''dddd'', ''eeeee'', ''ffffff'', ''ggggggg'', ''hhhhhhhh'',
     ''iiiiiiiii'', ''jjjjjjjjjj'', ''kkkkkkkkkkk'']"


section \<open>Generative model (services/gemini.js)\<close>

definition systemPrompt :: string where
  "systemPrompt =
     ''You are a helpful news assistant that answers questions based on recent news articles. ''
     @ newline @ newline
     @ ''Guidelines:'' @ newline
     @ ''- Use the provided context from news articles to answer questions accurately'' @ newline
     @ ''- If the context doesn't contain relevant information, say so clearly'' @ newline
     @ ''- Always cite your sources when possible'' @ newline
     @ ''- Provide balanced, factual information'' @ newline
     @ ''- If asked about breaking news, mention that your information is based on available articles''
     @ newline
     @ ''- Keep responses concise but informative'' @ newline
     @ ''- If multiple sources have different perspectives, present them fairly'' @ newline
     @ newline
     @ ''Context will be provided in the format:'' @ newline
     @ ''Source: [News Source] ([Article Title])'' @ newline
     @ ''[Article Content]'' @ newline
     @ newline
     @ ''Answer the user's question based on this context.''"

definition geminiPrompt :: "string \<Rightarrow> string \<Rightarrow> string" where
  "geminiPrompt query ctx =
     systemPrompt @ newline @ newline
     @ ''Context from recent news articles:'' @ newline
     @ ctx @ newline @ newline
     @ ''User Question: '' @ query @ newline @ newline
     @ ''Please provide a helpful answer based on the context above:''"

definition safetyReply :: string where
  "safetyReply = ''I apologize, but I cannot provide a response to that query due to safety guidelines. Please try rephrasing your question.''"

definition quotaReply :: string where
  "quotaReply = ''I'm currently experiencing high demand. Please try again in a few moments.''"

text \<open>
  The generative model: what \<^verbatim>\<open>model.generateContent(prompt)\<close> followed by
  \<^verbatim>\<open>response.text()\<close> does for a prompt.
\<close>

type_synonym gemini = "string \<Rightarrow> string outcome"

text \<open>The body of the \<^verbatim>\<open>try\<close> block of \<^verbatim>\<open>generateResponse\<close>.\<close>

definition generateAttempt :: "gemini \<Rightarrow> string \<Rightarrow> error + string" where
  "generateAttempt model prompt =
     (case model prompt of
        Throws m \<Rightarrow> Inl (ServiceError m)
      | Returns t \<Rightarrow>
          if t = [] \<or> length (trim t) = 0 then Inl EmptyGeminiResponse else Inr (trim t))"

definition generateResponse :: "gemini \<Rightarrow> string \<Rightarrow> string \<Rightarrow> (error + string) \<times> effect list" where
  "generateResponse model query ctx =
     (let prompt = geminiPrompt query ctx in
      case generateAttempt model prompt of
        Inr t \<Rightarrow> (Inr t, [GenerateContent prompt])
      | Inl e \<Rightarrow>
          if includes_str (message e) ''SAFETY'' then (Inr safetyReply, [GenerateContent prompt])
          else if includes_str (message e) ''QUOTA_EXCEEDED'' then (Inr quotaReply, [GenerateContent prompt])
          else (Inl (GenerationFailed e), [GenerateContent prompt]))"

section \<open>Retrieval and context assembly (RAGService)\<close>

record RAGService =
  contextWindow :: nat
  maxSources :: nat
  similarityThreshold :: real

definition newRAGService :: RAGService where
  "newRAGService = \<lparr>contextWindow = 4000, maxSources = 5, similarityThreshold = 0.7\<rparr>"

text \<open>What \<^verbatim>\<open>prepareContext\<close> returns.\<close>

record context_window =
  cw_text :: string
  cw_chunks :: "retrieved list"
  cw_length :: nat

text \<open>
  \<^verbatim>\<open>chunks.sort((a, b) => b.score - a.score)\<close>: a stable sort, highest score first
  (insertion sort on the negated score is stable as well).
\<close>

definition sortByScore :: "retrieved list \<Rightarrow> retrieved list" where
  "sortByScore chunks = sort_key (\<lambda>c. - score c) chunks"

definition queryContext :: "string \<Rightarrow> string" where
  "queryContext query =
     ''User Question: '' @ query @ newline @ newline @ ''Relevant News Information:''
     @ newline @ newline"

text \<open>
  The block rendered for one chunk (\<^verbatim>\<open>chunkText\<close> in \<^verbatim>\<open>prepareContext\<close>). The date is
  formatted by \<^verbatim>\<open>new Date(pubDate).toLocaleDateString()\<close>, which depends on the locale
  of the process: it is the parameter \<open>fmt\<close>.
\<close>

definition renderChunk :: "(string \<Rightarrow> string) \<Rightarrow> retrieved \<Rightarrow> string" where
  "renderChunk fmt chunk =
     ''Source: '' @ source chunk @ '' - '' @ articleTitle chunk @ newline
     @ ''Published: '' @ fmt (pubDate chunk) @ newline
     @ ''Content: '' @ passage chunk @ newline @ newline"

text \<open>
  The loop of \<^verbatim>\<open>prepareContext\<close> over the sorted chunks, with the state
  \<open>(contextText, usedChunks, currentLength)\<close>. The first chunk that does not fit ends
  the loop (\<^verbatim>\<open>break\<close>).
\<close>

fun packLoop ::
  "nat \<Rightarrow> (string \<Rightarrow> string) \<Rightarrow> retrieved list \<Rightarrow> string \<times> retrieved list \<times> nat
     \<Rightarrow> string \<times> retrieved list \<times> nat"
where
  "packLoop window fmt [] st = st"
| "packLoop window fmt (chunk # rest) (contextText, usedChunks, currentLength) =
     (let chunkText = renderChunk fmt chunk in
      if currentLength + length chunkText > window
      then (contextText, usedChunks, currentLength)
      else packLoop window fmt rest
             (contextText @ chunkText, usedChunks @ [chunk], currentLength + length chunkText))"

text \<open>
  \<^verbatim>\<open>prepareContext\<close> sorts its argument array in place; the second component of the
  result is that array after the call.
\<close>

definition prepareContext ::
  "RAGService \<Rightarrow> (string \<Rightarrow> string) \<Rightarrow> retrieved list \<Rightarrow> string
     \<Rightarrow> context_window \<times> retrieved list"
where
  "prepareContext svc fmt chunks query =
     (let sortedChunks = sortByScore chunks in
      case packLoop (contextWindow svc) fmt sortedChunks ([], [], length (queryContext query)) of
        (contextText, usedChunks, currentLength) \<Rightarrow>
          (\<lparr>cw_text = queryContext query @ contextText, cw_chunks = usedChunks,
            cw_length = currentLength\<rparr>,
           sortedChunks))"

text \<open>
  The \<^verbatim>\<open>Map\<close> of \<^verbatim>\<open>prepareSources\<close>, as its entries in insertion order: a URL that is
  already a key keeps its first entry.
\<close>

definition toCitation :: "retrieved \<Rightarrow> citation" where
  "toCitation chunk =
     \<lparr>s_title = articleTitle chunk, s_url = articleUrl chunk, s_source = source chunk,
      s_pubDate = pubDate chunk, relevanceScore = score chunk\<rparr>"

fun uniqueSources :: "retrieved list \<Rightarrow> (string \<times> citation) list \<Rightarrow> (string \<times> citation) list" where
  "uniqueSources [] m = m"
| "uniqueSources (chunk # rest) m =
     (if map_of m (articleUrl chunk) = None
      then uniqueSources rest (m @ [(articleUrl chunk, toCitation chunk)])
      else uniqueSources rest m)"

definition prepareSources :: "RAGService \<Rightarrow> retrieved list \<Rightarrow> citation list" where
  "prepareSources svc chunks =
     take (maxSources svc)
       (sort_key (\<lambda>s. - relevanceScore s) (map snd (uniqueSources chunks [])))"

text \<open>
  The interaction log: \<^verbatim>\<open>getDatabase()\<close> with its connection flag, and what
  \<^verbatim>\<open>db.query\<close> does for an INSERT.
\<close>

record database =
  isConnected :: bool
  dbQuery :: "interaction \<Rightarrow> unit outcome"

definition logInteraction :: "database \<Rightarrow> interaction \<Rightarrow> (error + unit) \<times> effect list" where
  "logInteraction db i =
     (if \<not> isConnected db then (Inr (), [])
      else (case dbQuery db i of
              Returns _ \<Rightarrow> (Inr (), [DbQuery i])
            | Throws m \<Rightarrow> (Inr (), [DbQuery i])))"

text \<open>
  Everything \<^verbatim>\<open>processQuery\<close> reaches outside itself: the API key of the environment,
  the embedding provider, the vector index, the generative model, the date format
  of the locale, the database and the two readings of \<^verbatim>\<open>Date.now()\<close>.
\<close>

record environment =
  apiKey :: "string option"
  jinaApi :: jina
  searchInVectorDB :: "embedding option \<Rightarrow> nat \<Rightarrow> filters option \<Rightarrow> retrieved list outcome"
  geminiModel :: gemini
  toLocaleDateString :: "string \<Rightarrow> string"
  db :: database
  startTime :: int
  endTime :: int

text \<open>\<^verbatim>\<open>a || b\<close> on an optional number: a missing value and 0 both give the default.\<close>

definition orDefault :: "'a::zero option \<Rightarrow> 'a \<Rightarrow> 'a" where
  "orDefault a b = (case a of None \<Rightarrow> b | Some v \<Rightarrow> if v = 0 then b else v)"

definition threshold :: "RAGService \<Rightarrow> options \<Rightarrow> real" where
  "threshold svc opts = orDefault (o_similarityThreshold opts) (similarityThreshold svc)"

definition relevantChunks :: "RAGService \<Rightarrow> options \<Rightarrow> retrieved list \<Rightarrow> retrieved list" where
  "relevantChunks svc opts searchResults =
     filter (\<lambda>chunk. score chunk \<ge> threshold svc opts) searchResults"

definition noMatchReply :: string where
  "noMatchReply = ''I couldn't find any relevant information in the recent news articles to answer your question. Could you try rephrasing your question or asking about a different topic?''"

definition processQuery ::
  "RAGService \<Rightarrow> environment \<Rightarrow> string \<Rightarrow> string \<Rightarrow> options \<Rightarrow> (error + rag_result) \<times> effect list"
where
  "processQuery svc env query sessionId opts =
     (case generateQueryEmbedding (apiKey env) (jinaApi env) query of
        (Inl e, tr1) \<Rightarrow> (Inl (RAGProcessingFailed e), tr1)
      | (Inr queryEmbedding, tr1) \<Rightarrow>
          (let limit = orDefault (o_maxSources opts) (maxSources svc);
               tr2 = tr1 @ [Search queryEmbedding limit (o_filters opts)]
           in case searchInVectorDB env queryEmbedding limit (o_filters opts) of
                Throws m \<Rightarrow> (Inl (RAGProcessingFailed (ServiceError m)), tr2)
              | Returns searchResults \<Rightarrow>
                  (let relevant = relevantChunks svc opts searchResults in
                   if length relevant = 0
                   then (Inr \<lparr>response = noMatchReply, sources = [],
                              metadata = \<lparr>processingTime = endTime env - startTime env,
                                          chunksFound = length searchResults,
                                          chunksUsed = 0, contextLength = 0\<rparr>\<rparr>,
                         tr2)
                   else
                     (case prepareContext svc (toLocaleDateString env) relevant query of
                        (ctx, relevantSorted) \<Rightarrow>
                          (case generateResponse (geminiModel env) query (cw_text ctx) of
                             (Inl e, tr3) \<Rightarrow> (Inl (RAGProcessingFailed e), tr2 @ tr3)
                           | (Inr reply, tr3) \<Rightarrow>
                               (let srcs = prepareSources svc relevantSorted;
                                    md = \<lparr>processingTime = endTime env - startTime env,
                                          chunksFound = length searchResults,
                                          chunksUsed = length relevantSorted,
                                          contextLength = length (cw_text ctx)\<rparr>
                                in case logInteraction (db env)
                                          \<lparr>i_sessionId = sessionId, i_query = query,
                                           i_response = reply, i_sources = srcs,
                                           i_metadata = md\<rparr> of
                                     (_, tr4) \<Rightarrow>
                                       (Inr \<lparr>response = reply, sources = srcs, metadata = md\<rparr>,
                                        tr2 @ tr3 @ tr4)))))))"

text \<open>The prompts sent to the generative model and the records sent to the log.\<close>

fun generated :: "effect list \<Rightarrow> string list" where
  "generated [] = []"
| "generated (GenerateContent p # es) = p # generated es"
| "generated (GenerateContentStream p # es) = p # generated es"
| "generated (e # es) = generated es"

fun logged :: "effect list \<Rightarrow> interaction list" where
  "logged [] = []"
| "logged (DbQuery i # es) = i # logged es"
| "logged (e # es) = logged es"


text \<open>
  The context \<^verbatim>\<open>processQuery\<close> assembles from the search results: the first component
  of its call of \<^verbatim>\<open>prepareContext\<close>.
\<close>

definition assembled ::
  "RAGService \<Rightarrow> environment \<Rightarrow> options \<Rightarrow> retrieved list \<Rightarrow> string \<Rightarrow> context_window" where
  "assembled svc env opts searchResults query =
     fst (prepareContext svc (toLocaleDateString env) (relevantChunks svc opts searchResults) query)"

subsection \<open>Sample environment\<close>

definition sampleChunk :: "string \<Rightarrow> real \<Rightarrow> string \<Rightarrow> retrieved" where
  "sampleChunk url sc body =
     \<lparr>chunkId = ''7f3e_chunk_0'', score = sc, passage = body, articleTitle = ''Markets rally'',
      articleUrl = url, source = ''BBC'', pubDate = ''2024-05-01''\<rparr>"

definition sampleSearch ::
  "retrieved list \<Rightarrow> embedding option \<Rightarrow> nat \<Rightarrow> filters option \<Rightarrow> retrieved list outcome" where
  "sampleSearch rs v k f = Returns rs"

definition sampleModel :: gemini where
  "sampleModel prompt = Returns ''Markets rose on Tuesday.''"

definition sampleDate :: "string \<Rightarrow> string" where
  "sampleDate d = d"

definition acceptAll :: "interaction \<Rightarrow> unit outcome" where
  "acceptAll i = Returns ()"

definition rejectAll :: "interaction \<Rightarrow> unit outcome" where
  "rejectAll i = Throws ''Connection terminated unexpectedly''"

definition connectedDb :: database where
  "connectedDb = \<lparr>isConnected = True, dbQuery = acceptAll\<rparr>"

definition failingDb :: database where
  "failingDb = \<lparr>isConnected = True, dbQuery = rejectAll\<rparr>"

definition sampleEnv :: "retrieved list \<Rightarrow> database \<Rightarrow> environment" where
  "sampleEnv rs d =
     \<lparr>apiKey = Some ''jina_key'', jinaApi = okProvider, searchInVectorDB = sampleSearch rs,
      geminiModel = sampleModel, toLocaleDateString = sampleDate, db = d,
      startTime = 1000, endTime = 1250\<rparr>"

definition noOptions :: options where
  "noOptions = \<lparr>o_maxSources = None, o_similarityThreshold = None, o_filters = None\<rparr>"

definition sampleQuery :: string where
  "sampleQuery = ''What happened to markets?''"

definition sampleSession :: string where
  "sampleSession = ''3b241101-e2bb-4255-8caf-4136c566a962''"

definition weakHits :: "retrieved list" where
  "weakHits = [sampleChunk ''https://bbc.example/a'' 0.5 ''Stocks rose.'',
               sampleChunk ''https://bbc.example/b'' 0.65 ''Oil fell.'']"

definition mixedHits :: "retrieved list" where
  "mixedHits = [sampleChunk ''https://bbc.example/a'' 0.5 ''Stocks rose.'',
                sampleChunk ''https://bbc.example/b'' 0.9 ''Oil fell.'']"

definition stocksChunk :: retrieved where
  "stocksChunk = sampleChunk ''https://bbc.example/a'' 0.8 ''Stocks rose.''"

definition oilChunk :: retrieved where
  "oilChunk = sampleChunk ''https://bbc.example/a'' 0.9 ''Oil fell.''"

definition longChunk :: retrieved where
  "longChunk = sampleChunk ''https://npr.example/c'' 0.75 (replicate 3900 CHR ''x'')"

definition crowdedHits :: "retrieved list" where
  "crowdedHits = [stocksChunk, oilChunk, longChunk]"

section \<open>Streaming generation (services/streamingService.js)\<close>

text \<open>
  An item of the \<^verbatim>\<open>context\<close> argument of \<^verbatim>\<open>streamResponse\<close>. A property the item
  does not have is \<open>None\<close> and is rendered as "undefined" by the template literal (the
  chat route passes citations, which have no \<^verbatim>\<open>articleTitle\<close> and no \<^verbatim>\<open>text\<close>).
\<close>

record context_item =
  ci_source :: "string option"
  ci_articleTitle :: "string option"
  ci_text :: "string option"

definition interpolate :: "string option \<Rightarrow> string" where
  "interpolate v = (case v of None \<Rightarrow> ''undefined'' | Some s \<Rightarrow> s)"

definition renderItem :: "context_item \<Rightarrow> string" where
  "renderItem item =
     ''Source: '' @ interpolate (ci_source item) @ newline
     @ ''Title: '' @ interpolate (ci_articleTitle item) @ newline
     @ ''Content: '' @ interpolate (ci_text item) @ newline @ ''---''"

definition buildPrompt :: "string \<Rightarrow> context_item list \<Rightarrow> string" where
  "buildPrompt query ctx =
     (let contextText = join newline (map renderItem ctx) in
      ''Based on the following recent news articles, please answer the user's question. '' @ newline
      @ ''    Provide accurate information and cite your sources when possible.'' @ newline
      @ newline
      @ ''    Context:'' @ newline
      @ ''    '' @ contextText @ newline
      @ newline
      @ ''    Question: '' @ query @ newline
      @ newline
      @ ''    Answer:'')"

text \<open>
  The streaming model: \<^verbatim>\<open>generateContentStream(prompt)\<close> either throws, or returns a
  stream that yields the given fragments (the \<^verbatim>\<open>chunk.text()\<close> of each item) and then
  ends (\<open>None\<close>) or fails with a message (\<open>Some m\<close>).
\<close>

type_synonym gemini_stream = "string \<Rightarrow> (string list \<times> string option) outcome"

text \<open>
  The \<^verbatim>\<open>for await\<close> loop over the fragments, carrying \<open>fullResponse\<close>.
\<close>

fun streamLoop :: "string \<Rightarrow> string list \<Rightarrow> string \<Rightarrow> string \<times> effect list" where
  "streamLoop sessionId [] fullResponse = (fullResponse, [])"
| "streamLoop sessionId (chunkText # rest) fullResponse =
     (case streamLoop sessionId rest (fullResponse @ chunkText) of
        (r, tr) \<Rightarrow>
          (r, Emit sessionId (MessageChunk sessionId chunkText False None) # Sleep 50 # tr))"

definition streamFailure :: "string \<Rightarrow> effect" where
  "streamFailure sessionId = Emit sessionId (MessageError sessionId ''Failed to generate response'')"

definition streamResponse ::
  "gemini_stream \<Rightarrow> string \<Rightarrow> string \<Rightarrow> context_item list \<Rightarrow> (error + string) \<times> effect list"
where
  "streamResponse model sessionId query ctx =
     (let prompt = buildPrompt query ctx in
      case model prompt of
        Throws m \<Rightarrow>
          (Inl (ServiceError m), [GenerateContentStream prompt, streamFailure sessionId])
      | Returns (fragments, failure) \<Rightarrow>
          (case streamLoop sessionId fragments [] of
             (fullResponse, tr) \<Rightarrow>
               (case failure of
                  None \<Rightarrow>
                    (Inr fullResponse,
                     GenerateContentStream prompt # tr
                     @ [Emit sessionId (MessageChunk sessionId [] True (Some fullResponse))])
                | Some m \<Rightarrow>
                    (Inl (ServiceError m),
                     GenerateContentStream prompt # tr @ [streamFailure sessionId]))))"

text \<open>The events published on a room, in order.\<close>

fun emitted :: "string \<Rightarrow> effect list \<Rightarrow> channel_event list" where
  "emitted room [] = []"
| "emitted room (Emit r ev # es) = (if r = room then ev # emitted room es else emitted room es)"
| "emitted room (e # es) = emitted room es"

definition helloStream :: gemini_stream where
  "helloStream prompt = Returns ([''Hello'', '' world''], None)"

definition brokenStream :: gemini_stream where
  "brokenStream prompt = Returns ([''Hello''], Some ''fetch failed'')"

definition sampleItem :: context_item where
  "sampleItem = \<lparr>ci_source = Some ''BBC'', ci_articleTitle = None, ci_text = None\<rparr>"

section \<open>Chunker (NewsIngestionService.chunkText)\<close>

text \<open>
  The article object built by \<^verbatim>\<open>processArticle\<close>, with the properties \<^verbatim>\<open>chunkText\<close>
  reads.
\<close>

record article =
  a_id :: string
  a_title :: string
  a_link :: string
  a_pubDate :: string
  a_source :: string
  a_author :: string
  a_categories :: "string list"

record chunk_metadata =
  m_title :: string
  m_source :: string
  m_url :: string
  m_pubDate :: string
  m_author :: string
  m_categories :: "string list"

record chunk =
  c_id :: string
  c_text :: string
  c_articleId :: string
  c_articleTitle :: string
  c_articleUrl :: string
  c_source :: string
  c_pubDate :: string
  c_chunkIndex :: nat
  c_metadata :: chunk_metadata

definition isTerminator :: "char \<Rightarrow> bool" where
  "isTerminator c = (c = CHR ''.'' \<or> c = CHR ''!'' \<or> c = CHR ''?'')"

text \<open>
  \<^verbatim>\<open>text.split(/[.!?]+/)\<close>: the pieces between maximal runs of terminators, an empty
  piece included where the text starts or ends with a run.
\<close>

function splitPunct :: "string \<Rightarrow> string list" where
  "splitPunct s =
     (let piece = takeWhile (\<lambda>c. \<not> isTerminator c) s;
          rest = dropWhile (\<lambda>c. \<not> isTerminator c) s
      in if rest = [] then [piece] else piece # splitPunct (dropWhile isTerminator rest))"
  by pat_completeness auto
termination
proof (relation "measure length")
  show "wf (measure length)" by simp
next
  fix s :: string and piece rest
  assume rest: "rest = dropWhile (\<lambda>c. \<not> isTerminator c) s" and ne: "rest \<noteq> []"
  from ne obtain x xs where x: "rest = x # xs" by (cases rest) auto
  have "dropWhile (\<lambda>c. \<not> isTerminator c) s = x # xs"
    using rest x by simp
  then have "isTerminator x"
    using hd_dropWhile [of "\<lambda>c. \<not> isTerminator c" s] by simp
  then have "length (dropWhile isTerminator rest) \<le> length xs"
    using x by (simp add: length_dropWhile_le)
  moreover have "length rest \<le> length s"
    using rest by (simp add: length_dropWhile_le)
  ultimately show "(dropWhile isTerminator rest, s) \<in> measure length"
    using x by simp
qed

declare splitPunct.simps [simp del]

definition sentencesOf :: "string \<Rightarrow> string list" where
  "sentencesOf t = filter (\<lambda>s. length (trim s) > 0) (splitPunct t)"

definition mkChunk :: "article \<Rightarrow> nat \<Rightarrow> string \<Rightarrow> chunk" where
  "mkChunk article chunkIndex body =
     \<lparr>c_id = a_id article @ ''_chunk_'' @ showNat chunkIndex,
      c_text = body,
      c_articleId = a_id article,
      c_articleTitle = a_title article,
      c_articleUrl = a_link article,
      c_source = a_source article,
      c_pubDate = a_pubDate article,
      c_chunkIndex = chunkIndex,
      c_metadata = \<lparr>m_title = a_title article, m_source = a_source article,
                     m_url = a_link article, m_pubDate = a_pubDate article,
                     m_author = a_author article, m_categories = a_categories article\<rparr>\<rparr>"

text \<open>
  \<^verbatim>\<open>sentences.slice(Math.max(0, i - 2), i)\<close> for \<open>i\<close> within the array (subtraction on
  \<open>nat\<close> stops at 0, as the \<^verbatim>\<open>Math.max\<close> does).
\<close>

definition overlapSentences :: "string list \<Rightarrow> nat \<Rightarrow> string list" where
  "overlapSentences sentences i = take (i - (i - 2)) (drop (i - 2) sentences)"

text \<open>
  One iteration of the loop over the sentence indices, on the state
  \<open>(currentChunk, chunkIndex, chunks)\<close>.
\<close>

definition chunkStep ::
  "article \<Rightarrow> nat \<Rightarrow> string list \<Rightarrow> string \<times> nat \<times> chunk list \<Rightarrow> nat \<Rightarrow> string \<times> nat \<times> chunk list"
where
  "chunkStep article maxChunkSize sentences st i =
     (case st of (currentChunk, chunkIndex, chunks) \<Rightarrow>
        (let sentence = trim (sentences ! i) @ ''.'' in
         if length currentChunk + length sentence > maxChunkSize \<and> length currentChunk > 0
         then
           (let ov = overlapSentences sentences i;
                seeded = join ''. '' ov @ (if length ov > 0 then ''. '' else [])
            in (seeded @ sentence @ '' '', chunkIndex + 1,
                chunks @ [mkChunk article chunkIndex (trim currentChunk)]))
         else (currentChunk @ sentence @ '' '', chunkIndex, chunks)))"

definition chunkText :: "string \<Rightarrow> article \<Rightarrow> nat \<Rightarrow> chunk list" where
  "chunkText t article maxChunkSize =
     (if t = [] \<or> length t < 100 then []
      else
        (let sentences = sentencesOf t in
         case foldl (chunkStep article maxChunkSize sentences) ([], 0, []) [0 ..< length sentences] of
           (currentChunk, chunkIndex, chunks) \<Rightarrow>
             if length (trim currentChunk) > 50
             then chunks @ [mkChunk article chunkIndex (trim currentChunk)]
             else chunks))"

definition longest :: "string list \<Rightarrow> nat" where
  "longest ss = foldr (\<lambda>s m. max (length s) m) ss 0"

definition chunkLengths :: "chunk list \<Rightarrow> nat list" where
  "chunkLengths cs = map (\<lambda>c. length (c_text c)) cs"

definition sampleArticle :: article where
  "sampleArticle =
     \<lparr>a_id = ''9b2d'', a_title = ''Markets rally'', a_link = ''https://bbc.example/a'',
      a_pubDate = ''2024-05-01'', a_source = ''BBC'', a_author = ''Staff'', a_categories = []\<rparr>"

definition longSentence :: string where
  "longSentence = replicate 400 CHR ''a''"

definition threeLongSentences :: string where
  "threeLongSentences = longSentence @ ''.'' @ longSentence @ ''.'' @ longSentence @ ''.''"

text \<open>
  The loop invariant of \<^verbatim>\<open>chunkText\<close> for the bounds \<open>b1\<close> (first chunk) and \<open>b\<close> (every
  chunk): the buffer is empty or ends with the space appended after its last sentence.
\<close>

definition chunkInv :: "nat \<Rightarrow> nat \<Rightarrow> string \<times> nat \<times> chunk list \<Rightarrow> bool" where
  "chunkInv b1 b st =
     (case st of (currentChunk, chunkIndex, chunks) \<Rightarrow>
        (currentChunk = [] \<or> (\<exists>xs. currentChunk = xs @ '' '' \<and> length xs \<le> b
                                  \<and> (chunkIndex = 0 \<longrightarrow> length xs \<le> b1)))
        \<and> (\<forall>c \<in> set chunks. length (c_text c) \<le> b \<and> c_chunkIndex c < chunkIndex
               \<and> (c_chunkIndex c = 0 \<longrightarrow> length (c_text c) \<le> b1)))"

section \<open>Properties of the embedding service\<close>

lemma upt_1_4: "[Suc 0 ..< 4] = [Suc 0, 2, 3]"
  by (simp add: upt_rec)

lemma trim_Nil: "trim [] = []"
  by (simp add: trim_def)


lemma attemptLoop_failed:
  "attemptFailed (post t a) \<Longrightarrow>
   attemptLoop svc post t (a # rest) =
     (if a = maxRetries svc
      then (Inl (EmbeddingFailed (maxRetries svc) (attemptError (post t a))), [Post t])
      else (fst (attemptLoop svc post t rest),
            Post t # Sleep (retryDelay svc * a) # snd (attemptLoop svc post t rest)))"
  by (auto simp: attemptFailed_def attemptError_def split: outcome.splits option.splits prod.splits)

lemma attemptLoop_ok:
  "post t a = Returns (Some v) \<Longrightarrow> attemptLoop svc post t (a # rest) = (Inr (Some v), [Post t])"
  by simp







text \<open>
  C7. For a text that passes the guards of \<^verbatim>\<open>generateEmbedding\<close> (not blank, API key
  set): if the provider fails on attempts 1 and 2 and succeeds on attempt 3, the call
  returns that embedding, having waited 1000 ms and then 2000 ms between the three
  requests; if the provider fails on all three attempts, the call raises the
  embedding failure after exactly three requests (and the same two waits), so there
  is no fourth request.
\<close>

theorem generateEmbedding_retry:
  assumes "trim t \<noteq> []" and "key \<noteq> []"
  shows "(attemptFailed (post (truncatedText t) 1) \<and> attemptFailed (post (truncatedText t) 2)
            \<and> post (truncatedText t) 3 = Returns (Some v) \<longrightarrow>
          generateEmbedding (newEmbeddingService (Some key)) post t =
            (Inr (Some v),
             [Post (truncatedText t), Sleep 1000, Post (truncatedText t), Sleep 2000,
              Post (truncatedText t)]))
       \<and> (attemptFailed (post (truncatedText t) 1) \<and> attemptFailed (post (truncatedText t) 2)
            \<and> attemptFailed (post (truncatedText t) 3) \<longrightarrow>
          generateEmbedding (newEmbeddingService (Some key)) post t =
            (Inl (EmbeddingFailed 3 (attemptError (post (truncatedText t) 3))),
             [Post (truncatedText t), Sleep 1000, Post (truncatedText t), Sleep 2000,
              Post (truncatedText t)]))"
proof -
  have t: "t \<noteq> []" using assms(1) trim_Nil by auto
  have g: "generateEmbedding (newEmbeddingService (Some key)) post t =
        attemptLoop (newEmbeddingService (Some key)) post (truncatedText t) [1, 2, 3]"
    using assms t
    by (simp add: generateEmbedding_def newEmbeddingService_def upt_1_4 del: attemptLoop.simps)
  have m: "maxRetries (newEmbeddingService (Some key)) = 3"
          "retryDelay (newEmbeddingService (Some key)) = 1000"
    by (simp_all add: newEmbeddingService_def)
  show ?thesis
    unfolding g by (simp add: attemptLoop_failed attemptLoop_ok m del: attemptLoop.simps)
qed

theorem generateEmbedding_retry_witness:
  "generateEmbedding (newEmbeddingService (Some ''jina_key'')) flakyProvider ''breaking news'' =
     (Inr (Some [1, 0]),
      [Post ''breaking news'', Sleep 1000, Post ''breaking news'', Sleep 2000, Post ''breaking news''])
   \<and> generateEmbedding (newEmbeddingService (Some ''jina_key'')) deadProvider ''breaking news'' =
     (Inl (EmbeddingFailed 3 (ServiceError ''ETIMEDOUT'')),
      [Post ''breaking news'', Sleep 1000, Post ''breaking news'', Sleep 2000, Post ''breaking news''])"
  using generateEmbedding_retry [of "''breaking news''" "''jina_key''" flakyProvider "[1, 0]"]
        generateEmbedding_retry [of "''breaking news''" "''jina_key''" deadProvider]
  by (simp add: trim_def isWhiteSpace_def truncatedText_def flakyProvider_def deadProvider_def
        attemptFailed_def attemptError_def)

lemma promiseAll_ok: "promiseAll (map (\<lambda>x. Inr (f x)) xs) = Inr (map f xs)"
  by (induction xs) auto

lemma batchLoop_ok:
  "\<forall>t \<in> set texts. fst (generateEmbedding svc post t) = Inr (e t) \<Longrightarrow>
   fst (batchLoop svc post texts i acc) = Inr (acc @ map e (drop i texts))"
proof (induction svc post texts i acc rule: batchLoop.induct)
  case (1 svc post texts i embeddings)
  show ?case
  proof (cases "i < length texts")
    case False
    then show ?thesis by (subst batchLoop.simps) simp
  next
    case True
    define batch where "batch = take batchSize (drop i texts)"
    have sub: "set batch \<subseteq> set texts"
      unfolding batch_def by (meson set_take_subset set_drop_subset subset_trans)
    have "map fst (map (generateEmbedding svc post) batch) = map (\<lambda>t. Inr (e t)) batch"
      using sub "1.prems" by auto
    then have pa: "promiseAll (map fst (map (generateEmbedding svc post) batch)) = Inr (map e batch)"
      by (simp only: promiseAll_ok)
    have IH: "fst (batchLoop svc post texts (i + batchSize) (embeddings @ map e batch))
              = Inr ((embeddings @ map e batch) @ map e (drop (i + batchSize) texts))"
      using "1.IH" [OF True batch_def refl refl pa refl] "1.prems" by simp
    have split: "map e batch @ map e (drop (i + batchSize) texts) = map e (drop i texts)"
      unfolding batch_def
      by (metis add.commute append_take_drop_id drop_drop map_append)
    have "fst (batchLoop svc post texts i embeddings)
          = fst (batchLoop svc post texts (i + batchSize) (embeddings @ map e batch))"
      using True pa unfolding batch_def
      by (subst batchLoop.simps) (simp add: Let_def split: prod.splits)
    then show ?thesis using IH split by simp
  qed
qed

lemma generateEmbedding_first_try:
  assumes "trim t \<noteq> []" and "key \<noteq> []" and "post (truncatedText t) 1 = Returns (Some v)"
  shows "generateEmbedding (newEmbeddingService (Some key)) post t
         = (Inr (Some v), [Post (truncatedText t)])"
proof -
  have t: "t \<noteq> []" using assms(1) trim_Nil by auto
  show ?thesis
    using assms t
    by (simp add: generateEmbedding_def newEmbeddingService_def upt_1_4)
qed

text \<open>
  C10 (as amended). When the API key is set, no text of the non-empty array is blank
  and the provider request for every text succeeds (the request for \<open>t\<close> yielding
  \<open>e t\<close>), \<^verbatim>\<open>generateBatchEmbeddings\<close> returns exactly one embedding per input text, in
  input order, whatever the partition into sub-batches of 10. An empty array and a
  non-array raise the error with no provider request at all (there are no actions).
\<close>

theorem generateBatchEmbeddings_order:
  "(texts \<noteq> [] \<and> key \<noteq> []
      \<and> (\<forall>t \<in> set texts. trim t \<noteq> [] \<and> post (truncatedText t) 1 = Returns (Some (e t))) \<longrightarrow>
      fst (generateBatchEmbeddings (newEmbeddingService (Some key)) post (Array texts))
        = Inr (map (\<lambda>t. Some (e t)) texts))
   \<and> generateBatchEmbeddings svc post (Array []) = (Inl [TextsNotArray], [])
   \<and> generateBatchEmbeddings svc post NotAnArray = (Inl [TextsNotArray], [])"
proof -
  have "fst (generateBatchEmbeddings (newEmbeddingService (Some key)) post (Array texts))
        = Inr (map (\<lambda>t. Some (e t)) texts)"
    if ne: "texts \<noteq> []" and key: "key \<noteq> []"
      and ok: "\<forall>t \<in> set texts. trim t \<noteq> [] \<and> post (truncatedText t) 1 = Returns (Some (e t))"
  proof -
    have "\<forall>t \<in> set texts.
            fst (generateEmbedding (newEmbeddingService (Some key)) post t) = Inr (Some (e t))"
      using ok key by (simp add: generateEmbedding_first_try)
    then show ?thesis
      using batchLoop_ok [of texts "newEmbeddingService (Some key)" post "\<lambda>t. Some (e t)" 0 "[]"] ne
      by (simp add: generateBatchEmbeddings_def)
  qed
  then show ?thesis
    by (simp add: generateBatchEmbeddings_def)
qed

theorem generateBatchEmbeddings_order_witness:
  "fst (generateBatchEmbeddings (newEmbeddingService (Some ''jina_key'')) okProvider
          (Array elevenTexts))
     = Inr [Some [1], Some [2], Some [3], Some [4], Some [5], Some [6], Some [7], Some [8],
            Some [9], Some [10], Some [11]]
   \<and> generateBatchEmbeddings (newEmbeddingService (Some ''jina_key'')) okProvider (Array [])
     = (Inl [TextsNotArray], [])"
  using generateBatchEmbeddings_order
          [of elevenTexts "''jina_key''" okProvider "\<lambda>t. [real (length t)]"
              "newEmbeddingService (Some ''jina_key'')"]
  by (simp add: elevenTexts_def trim_def isWhiteSpace_def truncatedText_def okProvider_def)

text \<open>
  C10 as stated fails: with a provider that answers every request, an array holding a
  blank text makes the batch raise "Text cannot be empty"; the only provider request
  made (for the other text) succeeds.
\<close>

theorem generateBatchEmbeddings_blank_counterexample:
  "generateBatchEmbeddings (newEmbeddingService (Some ''jina_key'')) okProvider
     (Array [''a'', '' ''])
   = (Inl [TextEmpty], [Concurrent [[Post ''a''], []]])"
  by (simp add: generateBatchEmbeddings_def batchLoop.simps [of _ _ _ 0] batchSize_def
        generateEmbedding_def trim_def isWhiteSpace_def newEmbeddingService_def upt_1_4
        truncatedText_def okProvider_def Let_def)

section \<open>Properties of retrieval and context assembly\<close>

lemma packLoop_prefix:
  "\<exists>k \<le> length cs.
     packLoop w fmt cs (t, u, n) =
       (t @ concat (map (renderChunk fmt) (take k cs)), u @ take k cs,
        n + length (concat (map (renderChunk fmt) (take k cs))))
     \<and> (k < length cs \<longrightarrow>
          w < n + length (concat (map (renderChunk fmt) (take k cs))) + length (renderChunk fmt (cs ! k)))"
proof (induction cs arbitrary: t u n)
  case Nil
  then show ?case by simp
next
  case (Cons c cs)
  show ?case
  proof (cases "n + length (renderChunk fmt c) > w")
    case True
    then show ?thesis by (intro exI [of _ 0]) simp
  next
    case False
    obtain k where k: "k \<le> length cs"
      "packLoop w fmt cs (t @ renderChunk fmt c, u @ [c], n + length (renderChunk fmt c)) =
         ((t @ renderChunk fmt c) @ concat (map (renderChunk fmt) (take k cs)), (u @ [c]) @ take k cs,
          (n + length (renderChunk fmt c)) + length (concat (map (renderChunk fmt) (take k cs))))"
      "k < length cs \<longrightarrow>
          w < (n + length (renderChunk fmt c)) + length (concat (map (renderChunk fmt) (take k cs)))
              + length (renderChunk fmt (cs ! k))"
      using Cons.IH [of "t @ renderChunk fmt c" "u @ [c]" "n + length (renderChunk fmt c)"] by blast
    show ?thesis
      using False k by (intro exI [of _ "Suc k"]) (auto simp: Let_def)
  qed
qed

lemma packLoop_bound:
  "n \<le> w \<Longrightarrow> snd (snd (packLoop w fmt cs (t, u, n))) \<le> w"
  by (induction cs arbitrary: t u n) (auto simp: Let_def)

lemma queryContext_length: "length (queryContext query) = 45 + length query"
  by (simp add: queryContext_def newline_def)

lemma sortByScore_sorted: "sorted_wrt (\<lambda>a b. score b \<le> score a) (sortByScore chunks)"
proof -
  have "sorted (map (\<lambda>c. - score c) (sortByScore chunks))"
    unfolding sortByScore_def by (rule sorted_sort_key)
  then show ?thesis
    by (simp add: sorted_map sorted_wrt_iff_nth_less)
qed

lemma sortByScore_set [simp]: "set (sortByScore chunks) = set chunks"
  by (simp add: sortByScore_def)

lemma sortByScore_length [simp]: "length (sortByScore chunks) = length chunks"
  by (simp add: sortByScore_def)

lemma prepareContext_shape:
  "\<exists>k \<le> length chunks.
     prepareContext svc fmt chunks query =
       (\<lparr>cw_text = queryContext query @ concat (map (renderChunk fmt) (take k (sortByScore chunks))),
         cw_chunks = take k (sortByScore chunks),
         cw_length = length (queryContext query)
                     + length (concat (map (renderChunk fmt) (take k (sortByScore chunks))))\<rparr>,
        sortByScore chunks)
     \<and> (k < length chunks \<longrightarrow>
          contextWindow svc < length (queryContext query)
              + length (concat (map (renderChunk fmt) (take k (sortByScore chunks))))
              + length (renderChunk fmt (sortByScore chunks ! k)))"
proof -
  obtain k where k: "k \<le> length (sortByScore chunks)"
     "packLoop (contextWindow svc) fmt (sortByScore chunks) ([], [], length (queryContext query)) =
       ([] @ concat (map (renderChunk fmt) (take k (sortByScore chunks))), [] @ take k (sortByScore chunks),
        length (queryContext query) + length (concat (map (renderChunk fmt) (take k (sortByScore chunks)))))"
     "k < length (sortByScore chunks) \<longrightarrow>
          contextWindow svc < length (queryContext query)
              + length (concat (map (renderChunk fmt) (take k (sortByScore chunks))))
              + length (renderChunk fmt (sortByScore chunks ! k))"
    using packLoop_prefix [of "sortByScore chunks" "contextWindow svc" fmt "[]" "[]" "length (queryContext query)"]
    by blast
  show ?thesis
    using k by (intro exI [of _ k]) (simp add: prepareContext_def Let_def)
qed

text \<open>
  The shape of the result of \<^verbatim>\<open>prepareContext\<close>: it uses a prefix of the chunks in
  score-descending order, each used chunk is rendered whole, the context text is the
  preamble followed by exactly the rendered blocks of the used chunks, and the first
  chunk left out (if any) would not have fitted. The preamble has 45 characters more
  than the query, and whenever the preamble itself fits the budget, the whole context
  text does.
\<close>

lemma prepareContext_budget:
  "(\<exists>k \<le> length chunks.
      cw_chunks (fst (prepareContext svc fmt chunks query)) = take k (sortByScore chunks)
      \<and> (k < length chunks \<longrightarrow>
           contextWindow svc < length (cw_text (fst (prepareContext svc fmt chunks query)))
              + length (renderChunk fmt (sortByScore chunks ! k))))
   \<and> cw_text (fst (prepareContext svc fmt chunks query)) =
       queryContext query
       @ concat (map (renderChunk fmt) (cw_chunks (fst (prepareContext svc fmt chunks query))))
   \<and> sorted_wrt (\<lambda>a b. score b \<le> score a) (sortByScore chunks)
   \<and> length (queryContext query) = 45 + length query
   \<and> (45 + length query \<le> contextWindow svc \<longrightarrow>
       length (cw_text (fst (prepareContext svc fmt chunks query))) \<le> contextWindow svc)"
proof -
  obtain k where k: "k \<le> length chunks"
     "prepareContext svc fmt chunks query =
       (\<lparr>cw_text = queryContext query @ concat (map (renderChunk fmt) (take k (sortByScore chunks))),
         cw_chunks = take k (sortByScore chunks),
         cw_length = length (queryContext query)
                     + length (concat (map (renderChunk fmt) (take k (sortByScore chunks))))\<rparr>,
        sortByScore chunks)"
     "k < length chunks \<longrightarrow>
          contextWindow svc < length (queryContext query)
              + length (concat (map (renderChunk fmt) (take k (sortByScore chunks))))
              + length (renderChunk fmt (sortByScore chunks ! k))"
    using prepareContext_shape [of chunks svc fmt query] by blast
  have pl: "snd (snd (packLoop (contextWindow svc) fmt (sortByScore chunks)
                      ([], [], length (queryContext query)))) = cw_length (fst (prepareContext svc fmt chunks query))"
    by (simp add: prepareContext_def Let_def split: prod.splits)
  have len: "length (cw_text (fst (prepareContext svc fmt chunks query)))
             = cw_length (fst (prepareContext svc fmt chunks query))"
    by (simp add: k(2))
  have b: "45 + length query \<le> contextWindow svc \<longrightarrow>
       length (cw_text (fst (prepareContext svc fmt chunks query))) \<le> contextWindow svc"
    unfolding len pl [symmetric]
    using packLoop_bound [of "length (queryContext query)" "contextWindow svc"]
    by (simp add: queryContext_length)
  have a: "\<exists>k \<le> length chunks.
      cw_chunks (fst (prepareContext svc fmt chunks query)) = take k (sortByScore chunks)
      \<and> (k < length chunks \<longrightarrow>
           contextWindow svc < length (cw_text (fst (prepareContext svc fmt chunks query)))
              + length (renderChunk fmt (sortByScore chunks ! k)))"
    using k by (intro exI [of _ k]) simp
  show ?thesis
    using a b k(2) sortByScore_sorted queryContext_length by simp
qed

lemma prepareContext_budget_sample:
  "map articleUrl (cw_chunks (fst (prepareContext newRAGService sampleDate
       [sampleChunk ''https://bbc.example/a'' 0.75 ''Stocks rose.'',
        sampleChunk ''https://bbc.example/b'' 0.9 (replicate 3800 CHR ''x''),
        sampleChunk ''https://bbc.example/c'' 0.8 ''Oil fell.'']
       ''What happened to markets?'')))
     = [''https://bbc.example/b'']
   \<and> length (cw_text (fst (prepareContext newRAGService sampleDate
       [sampleChunk ''https://bbc.example/a'' 0.75 ''Stocks rose.'',
        sampleChunk ''https://bbc.example/b'' 0.9 (replicate 3800 CHR ''x''),
        sampleChunk ''https://bbc.example/c'' 0.8 ''Oil fell.'']
       ''What happened to markets?''))) = 3931
   \<and> 3931 \<le> contextWindow newRAGService"
  using prepareContext_budget [of
       "[sampleChunk ''https://bbc.example/a'' 0.75 ''Stocks rose.'',
        sampleChunk ''https://bbc.example/b'' 0.9 (replicate 3800 CHR ''x''),
        sampleChunk ''https://bbc.example/c'' 0.8 ''Oil fell.'']"
       newRAGService sampleDate "''What happened to markets?''"]
  by (simp add: prepareContext_def sortByScore_def sampleChunk_def newRAGService_def
        renderChunk_def queryContext_def newline_def sampleDate_def Let_def)

text \<open>
  C4. The budget is not kept when the preamble alone exceeds it: \<^verbatim>\<open>prepareContext\<close>
  counts the preamble into \<^verbatim>\<open>currentLength\<close> but only compares the length against
  \<^verbatim>\<open>contextWindow\<close> when a chunk is added. With the default budget of 4000, a query of
  3956 characters and one retrieved chunk give a context text of 4001 characters (the
  preamble; the chunk is left out).
\<close>

theorem prepareContext_overflow:
  "cw_chunks (fst (prepareContext newRAGService sampleDate
       [sampleChunk ''https://bbc.example/a'' 0.75 ''Stocks rose.'']
       (replicate 3956 CHR ''q''))) = []
   \<and> length (cw_text (fst (prepareContext newRAGService sampleDate
       [sampleChunk ''https://bbc.example/a'' 0.75 ''Stocks rose.'']
       (replicate 3956 CHR ''q'')))) = 4001
   \<and> contextWindow newRAGService = 4000"
  by (simp add: prepareContext_def sortByScore_def sampleChunk_def newRAGService_def
        renderChunk_def queryContext_def newline_def sampleDate_def Let_def)

lemma generated_append: "generated (xs @ ys) = generated xs @ generated ys"
  by (induction xs rule: generated.induct) simp_all

lemma logged_append: "logged (xs @ ys) = logged xs @ logged ys"
  by (induction xs rule: logged.induct) simp_all

lemma attemptLoop_quiet:
  "generated (snd (attemptLoop svc post t as)) = [] \<and> logged (snd (attemptLoop svc post t as)) = []"
  by (induction as) (auto split: outcome.splits option.splits prod.splits simp: Let_def)

lemma generateQueryEmbedding_quiet:
  "generated (snd (generateQueryEmbedding key post q)) = []
   \<and> logged (snd (generateQueryEmbedding key post q)) = []"
  using attemptLoop_quiet
  by (simp add: generateQueryEmbedding_def generateEmbedding_def del: attemptLoop.simps)

lemma generateResponse_trace:
  "snd (generateResponse model q c) = [GenerateContent (geminiPrompt q c)]"
  by (simp add: generateResponse_def Let_def split: sum.splits)

lemma logInteraction_result:
  "logInteraction d i = (Inr (), if isConnected d then [DbQuery i] else [])"
  by (simp add: logInteraction_def split: outcome.splits)

lemma prepareContext_snd: "snd (prepareContext svc fmt chunks q) = sortByScore chunks"
  by (simp add: prepareContext_def Let_def split: prod.splits)

lemma processQuery_nomatch:
  assumes "generateQueryEmbedding (apiKey env) (jinaApi env) q = (Inr qe, tr1)"
    and "searchInVectorDB env qe (orDefault (o_maxSources opts) (maxSources svc)) (o_filters opts)
           = Returns rs"
    and "relevantChunks svc opts rs = []"
  shows "processQuery svc env q sid opts =
           (Inr \<lparr>response = noMatchReply, sources = [],
                 metadata = \<lparr>processingTime = endTime env - startTime env,
                             chunksFound = length rs, chunksUsed = 0, contextLength = 0\<rparr>\<rparr>,
            tr1 @ [Search qe (orDefault (o_maxSources opts) (maxSources svc)) (o_filters opts)])"
  using assms by (simp add: processQuery_def Let_def)

lemma processQuery_match:
  assumes "generateQueryEmbedding (apiKey env) (jinaApi env) q = (Inr qe, tr1)"
    and "searchInVectorDB env qe (orDefault (o_maxSources opts) (maxSources svc)) (o_filters opts)
           = Returns rs"
    and "relevantChunks svc opts rs \<noteq> []"
  shows "processQuery svc env q sid opts =
     (case fst (generateResponse (geminiModel env) q (cw_text (assembled svc env opts rs q))) of
        Inl e \<Rightarrow>
          (Inl (RAGProcessingFailed e),
           tr1 @ [Search qe (orDefault (o_maxSources opts) (maxSources svc)) (o_filters opts),
                  GenerateContent (geminiPrompt q (cw_text (assembled svc env opts rs q)))])
      | Inr reply \<Rightarrow>
          (Inr \<lparr>response = reply,
                sources = prepareSources svc (sortByScore (relevantChunks svc opts rs)),
                metadata = \<lparr>processingTime = endTime env - startTime env,
                            chunksFound = length rs,
                            chunksUsed = length (relevantChunks svc opts rs),
                            contextLength = length (cw_text (assembled svc env opts rs q))\<rparr>\<rparr>,
           tr1 @ [Search qe (orDefault (o_maxSources opts) (maxSources svc)) (o_filters opts),
                  GenerateContent (geminiPrompt q (cw_text (assembled svc env opts rs q)))]
               @ (if isConnected (db env)
                  then [DbQuery \<lparr>i_sessionId = sid, i_query = q, i_response = reply,
                          i_sources = prepareSources svc (sortByScore (relevantChunks svc opts rs)),
                          i_metadata = \<lparr>processingTime = endTime env - startTime env,
                            chunksFound = length rs,
                            chunksUsed = length (relevantChunks svc opts rs),
                            contextLength = length (cw_text (assembled svc env opts rs q))\<rparr>\<rparr>]
                  else [])))"
proof -
  obtain ctx srt where pc:
    "prepareContext svc (toLocaleDateString env) (relevantChunks svc opts rs) q = (ctx, srt)"
    by (cases "prepareContext svc (toLocaleDateString env) (relevantChunks svc opts rs) q")
  have ctx: "ctx = assembled svc env opts rs q"
    using pc by (simp add: assembled_def)
  have srt: "srt = sortByScore (relevantChunks svc opts rs)"
    using pc prepareContext_snd [of svc "toLocaleDateString env" "relevantChunks svc opts rs" q]
    by simp
  obtain res tr3 where gr: "generateResponse (geminiModel env) q (cw_text ctx) = (res, tr3)"
    by (cases "generateResponse (geminiModel env) q (cw_text ctx)")
  have tr3: "tr3 = [GenerateContent (geminiPrompt q (cw_text ctx))]"
    using gr generateResponse_trace [of "geminiModel env" q "cw_text ctx"] by simp
  show ?thesis
    using assms pc gr
    by (simp add: processQuery_def Let_def logInteraction_result ctx [symmetric] srt tr3
          split: sum.splits)
qed

lemma assembled_chunks_subset:
  "set (cw_chunks (assembled svc env opts rs q)) \<subseteq> set (relevantChunks svc opts rs)"
proof -
  obtain k where "cw_chunks (fst (prepareContext svc (toLocaleDateString env) (relevantChunks svc opts rs) q))
      = take k (sortByScore (relevantChunks svc opts rs))"
    using prepareContext_budget [of "relevantChunks svc opts rs" svc "toLocaleDateString env" q] by blast
  then show ?thesis
    unfolding assembled_def using set_take_subset [of k "sortByScore (relevantChunks svc opts rs)"]
    by simp
qed

text \<open>
  C5. Every chunk among the used chunks of the context that \<^verbatim>\<open>processQuery\<close>
  assembles has a score at or above the similarity threshold in force; the context
  text is the preamble followed by the rendered blocks of exactly those chunks, so no
  chunk below the threshold is rendered into it; and this text is the context of the
  one prompt sent to the generative model.
\<close>

theorem used_chunks_above_threshold:
  "(\<forall>c \<in> set (cw_chunks (assembled svc env opts rs q)). threshold svc opts \<le> score c)
   \<and> cw_text (assembled svc env opts rs q) =
       queryContext q
       @ concat (map (renderChunk (toLocaleDateString env)) (cw_chunks (assembled svc env opts rs q)))
   \<and> (generateQueryEmbedding (apiKey env) (jinaApi env) q = (Inr qe, tr1)
        \<and> searchInVectorDB env qe (orDefault (o_maxSources opts) (maxSources svc)) (o_filters opts)
            = Returns rs
        \<and> relevantChunks svc opts rs \<noteq> []
       \<longrightarrow> generated (snd (processQuery svc env q sid opts))
            = [geminiPrompt q (cw_text (assembled svc env opts rs q))])"
proof -
  have a: "\<forall>c \<in> set (cw_chunks (assembled svc env opts rs q)). threshold svc opts \<le> score c"
    using assembled_chunks_subset [of svc env opts rs q] by (auto simp: relevantChunks_def)
  have b: "cw_text (assembled svc env opts rs q) =
       queryContext q
       @ concat (map (renderChunk (toLocaleDateString env)) (cw_chunks (assembled svc env opts rs q)))"
    unfolding assembled_def
    using prepareContext_budget [of "relevantChunks svc opts rs" svc "toLocaleDateString env" q]
    by blast
  have c: "generated (snd (processQuery svc env q sid opts))
            = [geminiPrompt q (cw_text (assembled svc env opts rs q))]"
    if h: "generateQueryEmbedding (apiKey env) (jinaApi env) q = (Inr qe, tr1)"
        "searchInVectorDB env qe (orDefault (o_maxSources opts) (maxSources svc)) (o_filters opts)
            = Returns rs"
        "relevantChunks svc opts rs \<noteq> []"
  proof -
    have "generated tr1 = []"
      using generateQueryEmbedding_quiet [of "apiKey env" "jinaApi env" q] h(1) by simp
    then show ?thesis
      by (simp add: processQuery_match [OF h] generated_append split: sum.splits)
  qed
  show ?thesis using a b c by blast
qed

text \<open>
  C3. When the embedding and the vector search succeed and no search result has a score
  at or above the threshold (0.7 unless the options override it), \<^verbatim>\<open>processQuery\<close>
  returns the fixed fallback text, no citations, \<^verbatim>\<open>chunksUsed = 0\<close> (and
  \<^verbatim>\<open>contextLength = 0\<close>), and never calls the generative model.
\<close>

theorem no_match_short_circuit:
  assumes "generateQueryEmbedding (apiKey env) (jinaApi env) q = (Inr qe, tr1)"
    and "searchInVectorDB env qe (orDefault (o_maxSources opts) (maxSources svc)) (o_filters opts)
           = Returns rs"
    and "\<forall>c \<in> set rs. score c < threshold svc opts"
  shows "fst (processQuery svc env q sid opts) =
           Inr \<lparr>response = noMatchReply, sources = [],
                metadata = \<lparr>processingTime = endTime env - startTime env,
                            chunksFound = length rs, chunksUsed = 0, contextLength = 0\<rparr>\<rparr>
       \<and> generated (snd (processQuery svc env q sid opts)) = []
       \<and> threshold newRAGService noOptions = 0.7"
proof -
  have "relevantChunks svc opts rs = []"
    using assms(3) by (auto simp: relevantChunks_def filter_empty_conv)
  moreover have "generated tr1 = []"
    using generateQueryEmbedding_quiet [of "apiKey env" "jinaApi env" q] assms(1) by simp
  ultimately show ?thesis
    by (simp add: processQuery_nomatch [OF assms(1,2)] generated_append threshold_def
          orDefault_def newRAGService_def noOptions_def)
qed

lemma sample_embedding:
  "generateQueryEmbedding (Some ''jina_key'') okProvider ''What happened to markets?''
     = (Inr (Some [53]), [Post ''Question about recent news: What happened to markets?''])"
  by (simp add: generateQueryEmbedding_def generateEmbedding_def trim_def isWhiteSpace_def
        newEmbeddingService_def upt_1_4 truncatedText_def okProvider_def)

lemma generateQueryEmbedding_quietD:
  "generateQueryEmbedding key post q = (r, tr) \<Longrightarrow> generated tr = [] \<and> logged tr = []"
  using generateQueryEmbedding_quiet [of key post q] by simp

lemma generateResponse_traceD:
  "generateResponse model q c = (r, tr) \<Longrightarrow> tr = [GenerateContent (geminiPrompt q c)]"
  using generateResponse_trace [of model q c] by simp

lemma processQuery_db_irrelevant:
  "fst (processQuery svc (env\<lparr>db := d\<rparr>) q sid opts) = fst (processQuery svc env q sid opts)"
  by (simp add: processQuery_def Let_def logInteraction_result
        split: prod.splits sum.splits outcome.splits)

lemma processQuery_embed_fail:
  "generateQueryEmbedding (apiKey env) (jinaApi env) q = (Inl e, tr1)
   \<Longrightarrow> processQuery svc env q sid opts = (Inl (RAGProcessingFailed e), tr1)"
  by (simp add: processQuery_def)

lemma processQuery_search_fail:
  "generateQueryEmbedding (apiKey env) (jinaApi env) q = (Inr qe, tr1)
   \<Longrightarrow> searchInVectorDB env qe (orDefault (o_maxSources opts) (maxSources svc)) (o_filters opts)
         = Throws m
   \<Longrightarrow> processQuery svc env q sid opts =
         (Inl (RAGProcessingFailed (ServiceError m)),
          tr1 @ [Search qe (orDefault (o_maxSources opts) (maxSources svc)) (o_filters opts)])"
  by (simp add: processQuery_def Let_def)

text \<open>The four ways a call of \<open>processQuery\<close> can go.\<close>

lemma processQuery_paths:
  obtains (embed_fail) e tr1 where
      "processQuery svc env q sid opts = (Inl (RAGProcessingFailed e), tr1)"
      "generated tr1 = []" "logged tr1 = []"
  | (search_fail) m tr where
      "processQuery svc env q sid opts = (Inl (RAGProcessingFailed (ServiceError m)), tr)"
      "generated tr = []" "logged tr = []"
  | (no_match) res tr where
      "processQuery svc env q sid opts = (Inr res, tr)"
      "generated tr = []" "logged tr = []"
  | (gen_fail) e tr where
      "processQuery svc env q sid opts = (Inl (RAGProcessingFailed e), tr)"
      "generated tr \<noteq> []" "logged tr = []"
  | (answered) res tr where
      "processQuery svc env q sid opts = (Inr res, tr)"
      "generated tr \<noteq> []"
      "logged tr = (if isConnected (db env)
                    then [\<lparr>i_sessionId = sid, i_query = q, i_response = response res,
                           i_sources = sources res, i_metadata = metadata res\<rparr>]
                    else [])"
proof -
  obtain res1 tr1 where e: "generateQueryEmbedding (apiKey env) (jinaApi env) q = (res1, tr1)"
    by (cases "generateQueryEmbedding (apiKey env) (jinaApi env) q")
  have quiet: "generated tr1 = []" "logged tr1 = []"
    using generateQueryEmbedding_quietD [OF e] by simp_all
  show thesis
  proof (cases res1)
    case (Inl err)
    then show thesis
      using embed_fail processQuery_embed_fail e quiet by blast
  next
    case (Inr qe)
    note e' = e [unfolded Inr]
    show thesis
    proof (cases "searchInVectorDB env qe (orDefault (o_maxSources opts) (maxSources svc))
                    (o_filters opts)")
      case (Throws m)
      show thesis
        by (rule search_fail [OF processQuery_search_fail [OF e' Throws]])
           (simp_all add: generated_append logged_append quiet)
    next
      case (Returns rs)
      show thesis
      proof (cases "relevantChunks svc opts rs = []")
        case True
        show thesis
          by (rule no_match [OF processQuery_nomatch [OF e' Returns True]])
             (simp_all add: generated_append logged_append quiet)
      next
        case False
        note pm = processQuery_match [OF e' Returns False, of sid]
        show thesis
        proof (cases "fst (generateResponse (geminiModel env) q (cw_text (assembled svc env opts rs q)))")
          case (Inl err)
          show thesis
            by (rule gen_fail [OF pm [unfolded Inl sum.case]])
               (simp_all add: generated_append logged_append quiet)
        next
          case (Inr reply)
          show thesis
            by (rule answered [OF pm [unfolded Inr sum.case]])
               (simp_all add: generated_append logged_append quiet)
        qed
      qed
    qed
  qed
qed

lemma processQuery_logged:
  "fst (processQuery svc env q sid opts) = Inr r
   \<Longrightarrow> generated (snd (processQuery svc env q sid opts)) \<noteq> []
   \<Longrightarrow> isConnected (db env)
   \<Longrightarrow> logged (snd (processQuery svc env q sid opts))
       = [\<lparr>i_sessionId = sid, i_query = q, i_response = response r, i_sources = sources r,
           i_metadata = metadata r\<rparr>]"
  by (cases rule: processQuery_paths [of svc env q sid opts]) auto

lemma processQuery_not_logged:
  "generated (snd (processQuery svc env q sid opts)) = [] \<or> \<not> isConnected (db env)
   \<Longrightarrow> logged (snd (processQuery svc env q sid opts)) = []"
  by (cases rule: processQuery_paths [of svc env q sid opts]) auto

text \<open>
  C2 (as amended). The result of \<^verbatim>\<open>processQuery\<close> does not depend on the database:
  whether the log is connected, accepts the record or throws, the caller gets the same
  result. A query that was answered after a generation call is submitted to the log
  exactly once, with the session id, the query, the response, the citations and the
  metrics of the result, provided the database is connected. A query that made no
  generation call (the no-match short-circuit among them) and any query while the
  database is not connected are not submitted.
\<close>

theorem interaction_log_amended:
  "fst (processQuery svc (env\<lparr>db := d\<rparr>) q sid opts) = fst (processQuery svc env q sid opts)
   \<and> (fst (processQuery svc env q sid opts) = Inr r
        \<and> generated (snd (processQuery svc env q sid opts)) \<noteq> []
        \<and> isConnected (db env)
       \<longrightarrow> logged (snd (processQuery svc env q sid opts))
            = [\<lparr>i_sessionId = sid, i_query = q, i_response = response r, i_sources = sources r,
                i_metadata = metadata r\<rparr>])
   \<and> (generated (snd (processQuery svc env q sid opts)) = [] \<or> \<not> isConnected (db env)
       \<longrightarrow> logged (snd (processQuery svc env q sid opts)) = [])"
  using processQuery_db_irrelevant processQuery_logged processQuery_not_logged by blast

lemma sample_embedding':
  "generateQueryEmbedding (apiKey (sampleEnv rs d)) (jinaApi (sampleEnv rs d)) sampleQuery
     = (Inr (Some [53]), [Post ''Question about recent news: What happened to markets?''])"
  using sample_embedding by (simp add: sampleEnv_def sampleQuery_def)

lemma sample_search:
  "searchInVectorDB (sampleEnv rs d) v k f = Returns rs"
  by (simp add: sampleEnv_def sampleSearch_def)

lemma sample_service:
  "contextWindow newRAGService = 4000" "maxSources newRAGService = 5"
  by (simp_all add: newRAGService_def)

lemma sample_threshold: "threshold newRAGService noOptions = 0.7"
  by (simp add: threshold_def orDefault_def newRAGService_def noOptions_def)

theorem no_match_short_circuit_witness:
  "fst (processQuery newRAGService (sampleEnv weakHits connectedDb) sampleQuery sampleSession noOptions)
     = Inr \<lparr>response = noMatchReply, sources = [],
            metadata = \<lparr>processingTime = 250, chunksFound = 2, chunksUsed = 0, contextLength = 0\<rparr>\<rparr>
   \<and> generated (snd (processQuery newRAGService (sampleEnv weakHits connectedDb) sampleQuery
                        sampleSession noOptions)) = []"
  using no_match_short_circuit
          [OF sample_embedding' [of weakHits connectedDb] sample_search [of weakHits connectedDb],
           where svc = newRAGService and opts = noOptions and sid = sampleSession]
  by (simp add: sample_threshold weakHits_def sampleChunk_def sampleEnv_def)

theorem used_chunks_above_threshold_witness:
  "map score (cw_chunks (assembled newRAGService (sampleEnv mixedHits connectedDb) noOptions
                           mixedHits sampleQuery)) = [0.9]
   \<and> generated (snd (processQuery newRAGService (sampleEnv mixedHits connectedDb) sampleQuery
                        sampleSession noOptions))
       = [geminiPrompt sampleQuery
            (cw_text (assembled newRAGService (sampleEnv mixedHits connectedDb) noOptions
                        mixedHits sampleQuery))]"
proof -
  have rel: "relevantChunks newRAGService noOptions mixedHits
             = [sampleChunk ''https://bbc.example/b'' 0.9 ''Oil fell.'']"
    by (simp add: relevantChunks_def sample_threshold mixedHits_def sampleChunk_def)
  have used: "map score (cw_chunks (assembled newRAGService (sampleEnv mixedHits connectedDb) noOptions
                           mixedHits sampleQuery)) = [0.9]"
    by (simp add: assembled_def rel prepareContext_def sortByScore_def sampleChunk_def
          sample_service renderChunk_def queryContext_def newline_def sampleDate_def
          sampleEnv_def sampleQuery_def Let_def)
  show ?thesis
    using used_chunks_above_threshold
            [of newRAGService "sampleEnv mixedHits connectedDb" noOptions mixedHits sampleQuery
                "Some [53]" "[Post ''Question about recent news: What happened to markets?'']"
                sampleSession]
          sample_embedding' [of mixedHits connectedDb] sample_search [of mixedHits connectedDb]
          rel used
    by simp
qed

text \<open>
  C2 as stated fails: a query whose search results are all below the threshold completes
  with the fallback result, and nothing is sent to the connected log.
\<close>

theorem interaction_log_counterexample:
  "fst (processQuery newRAGService (sampleEnv weakHits connectedDb) sampleQuery sampleSession noOptions)
     = Inr \<lparr>response = noMatchReply, sources = [],
            metadata = \<lparr>processingTime = 250, chunksFound = 2, chunksUsed = 0, contextLength = 0\<rparr>\<rparr>
   \<and> isConnected (db (sampleEnv weakHits connectedDb))
   \<and> logged (snd (processQuery newRAGService (sampleEnv weakHits connectedDb) sampleQuery
                     sampleSession noOptions)) = []"
proof -
  have rel: "relevantChunks newRAGService noOptions weakHits = []"
    by (simp add: relevantChunks_def sample_threshold weakHits_def sampleChunk_def)
  note run = processQuery_nomatch
     [OF sample_embedding' [of weakHits connectedDb] sample_search [of weakHits connectedDb] rel,
      of sampleSession]
  have "length weakHits = 2" "endTime (sampleEnv weakHits connectedDb) = 1250"
       "startTime (sampleEnv weakHits connectedDb) = 1000"
       "isConnected (db (sampleEnv weakHits connectedDb))"
    by (simp_all add: weakHits_def sampleEnv_def connectedDb_def)
  then show ?thesis
    by (simp add: run logged_append)
qed

theorem interaction_log_amended_witness:
  "fst (processQuery newRAGService (sampleEnv mixedHits failingDb) sampleQuery sampleSession noOptions)
     = fst (processQuery newRAGService (sampleEnv mixedHits connectedDb) sampleQuery sampleSession
              noOptions)
   \<and> fst (processQuery newRAGService (sampleEnv mixedHits failingDb) sampleQuery sampleSession noOptions)
     = Inr \<lparr>response = ''Markets rose on Tuesday.'',
            sources = [toCitation (sampleChunk ''https://bbc.example/b'' 0.9 ''Oil fell.'')],
            metadata = \<lparr>processingTime = 250, chunksFound = 2, chunksUsed = 1,
                        contextLength = 140\<rparr>\<rparr>
   \<and> logged (snd (processQuery newRAGService (sampleEnv mixedHits failingDb) sampleQuery
                     sampleSession noOptions))
     = [\<lparr>i_sessionId = sampleSession, i_query = sampleQuery,
         i_response = ''Markets rose on Tuesday.'',
         i_sources = [toCitation (sampleChunk ''https://bbc.example/b'' 0.9 ''Oil fell.'')],
         i_metadata = \<lparr>processingTime = 250, chunksFound = 2, chunksUsed = 1,
                        contextLength = 140\<rparr>\<rparr>]"
proof -
  have rel: "relevantChunks newRAGService noOptions mixedHits
             = [sampleChunk ''https://bbc.example/b'' 0.9 ''Oil fell.'']"
    by (simp add: relevantChunks_def sample_threshold mixedHits_def sampleChunk_def)
  have ne: "relevantChunks newRAGService noOptions mixedHits \<noteq> []"
    by (simp add: rel)
  have len: "length (cw_text (assembled newRAGService (sampleEnv mixedHits d) noOptions
                           mixedHits sampleQuery)) = 140" for d
    by (simp add: assembled_def rel prepareContext_def sortByScore_def sampleChunk_def
          sample_service renderChunk_def queryContext_def newline_def sampleDate_def
          sampleEnv_def sampleQuery_def Let_def)
  have gen: "fst (generateResponse (geminiModel (sampleEnv mixedHits d)) sampleQuery c)
             = Inr ''Markets rose on Tuesday.''" for d c
    by (simp add: generateResponse_def generateAttempt_def sampleEnv_def sampleModel_def
          trim_def isWhiteSpace_def Let_def)
  have srcs: "prepareSources newRAGService (sortByScore (relevantChunks newRAGService noOptions mixedHits))
              = [toCitation (sampleChunk ''https://bbc.example/b'' 0.9 ''Oil fell.'')]"
    by (simp add: rel prepareSources_def sortByScore_def sample_service)
  have run: "processQuery newRAGService (sampleEnv mixedHits failingDb) sampleQuery sampleSession noOptions
      = (Inr \<lparr>response = ''Markets rose on Tuesday.'',
            sources = [toCitation (sampleChunk ''https://bbc.example/b'' 0.9 ''Oil fell.'')],
            metadata = \<lparr>processingTime = 250, chunksFound = 2, chunksUsed = 1,
                        contextLength = 140\<rparr>\<rparr>,
         [Post ''Question about recent news: What happened to markets?'',
          Search (Some [53]) 5 None,
          GenerateContent (geminiPrompt sampleQuery
             (cw_text (assembled newRAGService (sampleEnv mixedHits failingDb) noOptions
                        mixedHits sampleQuery))),
          DbQuery \<lparr>i_sessionId = sampleSession, i_query = sampleQuery,
             i_response = ''Markets rose on Tuesday.'',
             i_sources = [toCitation (sampleChunk ''https://bbc.example/b'' 0.9 ''Oil fell.'')],
             i_metadata = \<lparr>processingTime = 250, chunksFound = 2, chunksUsed = 1,
                        contextLength = 140\<rparr>\<rparr>])"
  proof -
    have nrel: "length (relevantChunks newRAGService noOptions mixedHits) = 1"
      by (simp add: rel)
    have facts:
      "orDefault (o_maxSources noOptions) (maxSources newRAGService) = 5"
      "o_filters noOptions = None" "length mixedHits = 2"
      "endTime (sampleEnv mixedHits failingDb) = 1250"
      "startTime (sampleEnv mixedHits failingDb) = 1000"
      "isConnected (db (sampleEnv mixedHits failingDb))"
      by (simp_all add: sampleEnv_def failingDb_def mixedHits_def orDefault_def noOptions_def
            sample_service)
    show ?thesis
      by (simp add: processQuery_match
            [OF sample_embedding' [of mixedHits failingDb] sample_search [of mixedHits failingDb] ne]
            gen len srcs nrel facts)
  qed
  have same: "(sampleEnv mixedHits failingDb)\<lparr>db := connectedDb\<rparr> = sampleEnv mixedHits connectedDb"
    by (simp add: sampleEnv_def)
  show ?thesis
    using interaction_log_amended
            [where svc = newRAGService and env = "sampleEnv mixedHits failingDb" and d = connectedDb
               and q = sampleQuery and sid = sampleSession and opts = noOptions]
    by (simp add: same run)
qed

lemma uniqueSources_keys:
  "distinct (map fst m) \<Longrightarrow> distinct (map fst (uniqueSources cs m))"
  by (induction cs arbitrary: m) (auto simp: map_of_eq_None_iff)

lemma uniqueSources_entries:
  assumes "sorted_wrt (\<lambda>a b. score b \<le> score a) (pre @ cs)"
    and "fst ` set m = articleUrl ` set pre"
    and "\<forall>(u, s) \<in> set m. Q u s"
    and "\<forall>c \<in> set cs. (\<forall>c' \<in> set (pre @ cs). articleUrl c' = articleUrl c \<longrightarrow> score c' \<le> score c)
              \<longrightarrow> Q (articleUrl c) (toCitation c)"
  shows "\<forall>(u, s) \<in> set (uniqueSources cs m). Q u s"
  using assms
proof (induction cs arbitrary: m pre)
  case Nil
  then show ?case by simp
next
  case (Cons c cs)
  have srt: "sorted_wrt (\<lambda>a b. score b \<le> score a) ((pre @ [c]) @ cs)"
    using Cons.prems(1) by simp
  have Q': "\<forall>c' \<in> set cs.
           (\<forall>x \<in> set ((pre @ [c]) @ cs). articleUrl x = articleUrl c' \<longrightarrow> score x \<le> score c')
              \<longrightarrow> Q (articleUrl c') (toCitation c')"
    using Cons.prems(4) by simp
  show ?case
  proof (cases "map_of m (articleUrl c) = None")
    case True
    then have fresh: "articleUrl c \<notin> articleUrl ` set pre"
      using Cons.prems(2) by (simp add: map_of_eq_None_iff)
    have later: "\<forall>c' \<in> set cs. score c' \<le> score c"
      using Cons.prems(1) by (auto simp: sorted_wrt_append)
    have "\<forall>c' \<in> set (pre @ c # cs). articleUrl c' = articleUrl c \<longrightarrow> score c' \<le> score c"
      using fresh later by (force simp: image_iff)
    then have Qc: "Q (articleUrl c) (toCitation c)"
      using Cons.prems(4) by simp
    have keys: "fst ` set (m @ [(articleUrl c, toCitation c)]) = articleUrl ` set (pre @ [c])"
      using Cons.prems(2) by simp
    have all: "\<forall>(u, s) \<in> set (m @ [(articleUrl c, toCitation c)]). Q u s"
      using Cons.prems(3) Qc by simp
    have "\<forall>(u, s) \<in> set (uniqueSources cs (m @ [(articleUrl c, toCitation c)])). Q u s"
      using srt keys all Q' by (rule Cons.IH)
    then show ?thesis
      using True by simp
  next
    case False
    then have "articleUrl c \<in> articleUrl ` set pre"
      using Cons.prems(2) by (simp add: map_of_eq_None_iff)
    then have keys: "fst ` set m = articleUrl ` set (pre @ [c])"
      using Cons.prems(2) by (simp add: insert_absorb)
    have "\<forall>(u, s) \<in> set (uniqueSources cs m). Q u s"
      using srt keys Cons.prems(3) Q' by (rule Cons.IH)
    then show ?thesis
      using False by auto
  qed
qed

lemma uniqueSources_sorted:
  assumes "sorted_wrt (\<lambda>a b. score b \<le> score a) cs" and "(u, s) \<in> set (uniqueSources cs [])"
  shows "s_url s = u
       \<and> (\<exists>c \<in> set cs. articleUrl c = u \<and> score c = relevanceScore s)
       \<and> (\<forall>c \<in> set cs. articleUrl c = u \<longrightarrow> score c \<le> relevanceScore s)"
proof -
  have "\<forall>(u, s) \<in> set (uniqueSources cs []).
          s_url s = u
          \<and> (\<exists>c \<in> set cs. articleUrl c = u \<and> score c = relevanceScore s)
          \<and> (\<forall>c \<in> set cs. articleUrl c = u \<longrightarrow> score c \<le> relevanceScore s)"
    by (rule uniqueSources_entries [where pre = "[]"])
       (use assms(1) in \<open>auto simp: toCitation_def\<close>)
  then show ?thesis using assms(2) by auto
qed

lemma distinct_map_insort_key:
  "distinct (map f (insort_key g x xs)) = distinct (map f (x # xs))"
  by (induction xs) (auto simp: set_insort_key)

lemma distinct_map_sort_key:
  "distinct (map f (sort_key g xs)) = distinct (map f xs)"
  by (induction xs) (simp_all add: distinct_map_insort_key)

lemma sort_key_desc:
  "sorted_wrt (\<lambda>a b. relevanceScore b \<le> relevanceScore a) (sort_key (\<lambda>s. - relevanceScore s) xs)"
proof -
  have "sorted (map (\<lambda>s. - relevanceScore s) (sort_key (\<lambda>s. - relevanceScore s) xs))"
    by (rule sorted_sort_key)
  then show ?thesis
    by (simp add: sorted_map sorted_wrt_iff_nth_less)
qed

lemma prepareSources_sorted_input:
  assumes "sorted_wrt (\<lambda>a b. score b \<le> score a) cs"
  shows "distinct (map s_url (prepareSources svc cs))
       \<and> (\<forall>s \<in> set (prepareSources svc cs).
            (\<exists>c \<in> set cs. articleUrl c = s_url s \<and> score c = relevanceScore s)
            \<and> (\<forall>c \<in> set cs. articleUrl c = s_url s \<longrightarrow> score c \<le> relevanceScore s))
       \<and> sorted_wrt (\<lambda>a b. relevanceScore b \<le> relevanceScore a) (prepareSources svc cs)
       \<and> length (prepareSources svc cs) \<le> maxSources svc"
proof -
  let ?m = "uniqueSources cs []"
  let ?xs = "sort_key (\<lambda>s. - relevanceScore s) (map snd ?m)"
  have url: "map s_url (map snd ?m) = map fst ?m"
    using uniqueSources_sorted [OF assms] by (auto simp: map_eq_conv)
  have d: "distinct (map s_url ?xs)"
    using uniqueSources_keys [of "[]" cs] by (simp only: distinct_map_sort_key url) simp
  have "distinct (take (maxSources svc) (map s_url ?xs))"
    using d by (rule distinct_take)
  then have d': "distinct (map s_url (prepareSources svc cs))"
    by (simp add: prepareSources_def take_map)
  have mem: "\<forall>s \<in> set (prepareSources svc cs).
            (\<exists>c \<in> set cs. articleUrl c = s_url s \<and> score c = relevanceScore s)
            \<and> (\<forall>c \<in> set cs. articleUrl c = s_url s \<longrightarrow> score c \<le> relevanceScore s)"
  proof
    fix s assume "s \<in> set (prepareSources svc cs)"
    then have "s \<in> set ?xs" unfolding prepareSources_def by (meson in_set_takeD)
    then obtain u where "(u, s) \<in> set ?m" by auto
    then show "(\<exists>c \<in> set cs. articleUrl c = s_url s \<and> score c = relevanceScore s)
            \<and> (\<forall>c \<in> set cs. articleUrl c = s_url s \<longrightarrow> score c \<le> relevanceScore s)"
      using uniqueSources_sorted [OF assms, of u s] by simp
  qed
  have srt: "sorted_wrt (\<lambda>a b. relevanceScore b \<le> relevanceScore a) (prepareSources svc cs)"
    unfolding prepareSources_def by (rule sorted_wrt_take) (rule sort_key_desc)
  show ?thesis using d' mem srt by (simp add: prepareSources_def)
qed

lemma uniqueSources_keyset:
  "fst ` set (uniqueSources cs m) = fst ` set m \<union> articleUrl ` set cs"
proof (induction cs arbitrary: m)
  case Nil
  then show ?case by simp
next
  case (Cons c cs)
  show ?case
  proof (cases "map_of m (articleUrl c) = None")
    case True
    then show ?thesis using Cons.IH [of "m @ [(articleUrl c, toCitation c)]"] by auto
  next
    case False
    then have "articleUrl c \<in> fst ` set m" by (simp add: map_of_eq_None_iff)
    then show ?thesis using False Cons.IH [of m] by auto
  qed
qed

lemma uniqueSources_origin:
  "(u, s) \<in> set (uniqueSources cs m) \<Longrightarrow>
     (u, s) \<in> set m \<or> (\<exists>c \<in> set cs. u = articleUrl c \<and> s = toCitation c)"
proof (induction cs arbitrary: m)
  case Nil
  then show ?case by simp
next
  case (Cons c cs)
  show ?case
  proof (cases "map_of m (articleUrl c) = None")
    case True
    then have "(u, s) \<in> set (uniqueSources cs (m @ [(articleUrl c, toCitation c)]))"
      using Cons.prems by simp
    then show ?thesis using Cons.IH [of "m @ [(articleUrl c, toCitation c)]"] by auto
  next
    case False
    then have "(u, s) \<in> set (uniqueSources cs m)"
      using Cons.prems by auto
    then show ?thesis using Cons.IH [of m] by auto
  qed
qed

lemma uniqueSources_count:
  "length (uniqueSources cs []) = card (articleUrl ` set cs)"
proof -
  have "distinct (map fst (uniqueSources cs []))"
    by (rule uniqueSources_keys) simp
  then have "card (set (map fst (uniqueSources cs []))) = length (map fst (uniqueSources cs []))"
    by (rule distinct_card)
  then show ?thesis
    using uniqueSources_keyset [of cs "[]"] by simp
qed

lemma prepareSources_count:
  "length (prepareSources svc cs) = min (maxSources svc) (card (articleUrl ` set cs))"
  by (simp add: prepareSources_def uniqueSources_count min.commute)

lemma prepareSources_origin:
  assumes "s \<in> set (prepareSources svc cs)"
  shows "\<exists>c \<in> set cs. s = toCitation c"
proof -
  have "s \<in> set (sort_key (\<lambda>s. - relevanceScore s) (map snd (uniqueSources cs [])))"
    using assms unfolding prepareSources_def by (meson in_set_takeD)
  then obtain u where "(u, s) \<in> set (uniqueSources cs [])" by auto
  then show ?thesis using uniqueSources_origin [of u s cs "[]"] by auto
qed

lemma prepareSources_uncited:
  assumes srt: "sorted_wrt (\<lambda>a b. score b \<le> score a) cs"
    and c: "c \<in> set cs"
    and un: "articleUrl c \<notin> s_url ` set (prepareSources svc cs)"
    and s: "s \<in> set (prepareSources svc cs)"
  shows "score c \<le> relevanceScore s"
proof -
  let ?m = "uniqueSources cs []"
  let ?xs = "sort_key (\<lambda>s. - relevanceScore s) (map snd ?m)"
  let ?n = "maxSources svc"
  have "articleUrl c \<in> fst ` set ?m"
    using uniqueSources_keyset [of cs "[]"] c by auto
  then obtain e where e: "(articleUrl c, e) \<in> set ?m" by auto
  have eprops: "s_url e = articleUrl c" "score c \<le> relevanceScore e"
    using uniqueSources_sorted [OF srt e] c by auto
  have "e \<in> set ?xs" using e by force
  moreover have "e \<notin> set (take ?n ?xs)"
    using un eprops(1) unfolding prepareSources_def by force
  ultimately have "e \<in> set (drop ?n ?xs)"
    by (metis Un_iff append_take_drop_id set_append)
  moreover have "sorted_wrt (\<lambda>a b. relevanceScore b \<le> relevanceScore a) (take ?n ?xs @ drop ?n ?xs)"
    using sort_key_desc [of "map snd ?m"] by simp
  moreover have "s \<in> set (take ?n ?xs)"
    using s by (simp add: prepareSources_def)
  ultimately have "relevanceScore e \<le> relevanceScore s"
    unfolding sorted_wrt_append by blast
  then show ?thesis using eprops(2) by simp
qed

lemma prepareSources_all_cited:
  assumes srt: "sorted_wrt (\<lambda>a b. score b \<le> score a) cs"
    and few: "card (articleUrl ` set cs) \<le> maxSources svc"
  shows "s_url ` set (prepareSources svc cs) = articleUrl ` set cs"
proof -
  note ps = prepareSources_sorted_input [OF srt, of svc]
  have sub: "s_url ` set (prepareSources svc cs) \<subseteq> articleUrl ` set cs"
    using ps by force
  have "card (set (map s_url (prepareSources svc cs))) = length (map s_url (prepareSources svc cs))"
    using ps by (intro distinct_card) simp
  then have "card (s_url ` set (prepareSources svc cs)) = card (articleUrl ` set cs)"
    using few by (simp add: prepareSources_count)
  then show ?thesis
    using sub by (intro card_subset_eq) simp_all
qed

lemma sorted_take_higher:
  assumes "sorted_wrt (\<lambda>a b. score b \<le> score a) xs"
    and "x \<in> set (take k xs)" and "y \<in> set xs" and "score x < score y"
  shows "y \<in> set (take k xs)"
proof (rule ccontr)
  assume "y \<notin> set (take k xs)"
  then have "y \<in> set (drop k xs)"
    using assms(3) by (metis Un_iff append_take_drop_id set_append)
  moreover have "sorted_wrt (\<lambda>a b. score b \<le> score a) (take k xs @ drop k xs)"
    using assms(1) by simp
  ultimately have "score y \<le> score x"
    using assms(2) unfolding sorted_wrt_append by blast
  then show False using assms(4) by simp
qed

lemma Max_score_eq:
  assumes "c \<in> set cs" "articleUrl c = u" "score c = v"
    and "\<forall>c \<in> set cs. articleUrl c = u \<longrightarrow> score c \<le> v"
  shows "Max (score ` {c \<in> set cs. articleUrl c = u}) = v"
  using assms by (intro Max_eqI) auto

text \<open>
  C1 (as amended). When a query has chunks at or above the threshold and is answered,
  its citation list is built from all of those chunks, whether or not they fitted into
  the context: the URLs of the entries are pairwise distinct; each entry is the
  citation of one such chunk, and its score is the maximum score among that article's
  chunks at or above the threshold (which is also the maximum among the article's used
  chunks whenever the article has a used chunk); the list is sorted by score
  descending; it has exactly as many entries as there are distinct article URLs among
  those chunks, capped at \<^verbatim>\<open>maxSources\<close> (5), so that when the cap is not reached
  every such article is cited, those left out of the context included; and an article
  that the cap leaves out has no chunk scoring above any cited entry.
\<close>

theorem citations_amended:
  assumes "generateQueryEmbedding (apiKey env) (jinaApi env) q = (Inr qe, tr1)"
    and "searchInVectorDB env qe (orDefault (o_maxSources opts) (maxSources svc)) (o_filters opts)
           = Returns rs"
    and "relevantChunks svc opts rs \<noteq> []"
    and "fst (processQuery svc env q sid opts) = Inr r"
  shows "distinct (map s_url (sources r))
       \<and> (\<forall>s \<in> set (sources r).
             (\<exists>c \<in> set (relevantChunks svc opts rs). s = toCitation c)
             \<and> relevanceScore s
                 = Max (score ` {c \<in> set (relevantChunks svc opts rs). articleUrl c = s_url s})
             \<and> ((\<exists>c \<in> set (cw_chunks (assembled svc env opts rs q)). articleUrl c = s_url s)
                  \<longrightarrow> relevanceScore s
                       = Max (score ` {c \<in> set (cw_chunks (assembled svc env opts rs q)).
                                        articleUrl c = s_url s})))
       \<and> sorted_wrt (\<lambda>a b. relevanceScore b \<le> relevanceScore a) (sources r)
       \<and> length (sources r)
           = min (maxSources svc) (card (articleUrl ` set (relevantChunks svc opts rs)))
       \<and> (card (articleUrl ` set (relevantChunks svc opts rs)) \<le> maxSources svc
            \<longrightarrow> s_url ` set (sources r) = articleUrl ` set (relevantChunks svc opts rs))
       \<and> (\<forall>c \<in> set (relevantChunks svc opts rs).
             articleUrl c \<notin> s_url ` set (sources r)
             \<longrightarrow> (\<forall>s \<in> set (sources r). score c \<le> relevanceScore s))"
proof -
  let ?rel = "relevantChunks svc opts rs"
  let ?srt = "sortByScore ?rel"
  let ?used = "cw_chunks (assembled svc env opts rs q)"
  have src: "sources r = prepareSources svc ?srt"
    using assms(4) processQuery_match [OF assms(1-3), of sid]
    by (auto split: sum.splits)
  note ps = prepareSources_sorted_input [OF sortByScore_sorted, of svc ?rel]
  obtain k where k: "?used = take k ?srt"
    using prepareContext_budget [of ?rel svc "toLocaleDateString env" q]
    unfolding assembled_def by blast
  have per: "(\<exists>c \<in> set ?rel. s = toCitation c)
             \<and> relevanceScore s = Max (score ` {c \<in> set ?rel. articleUrl c = s_url s})
             \<and> ((\<exists>c \<in> set ?used. articleUrl c = s_url s)
                  \<longrightarrow> relevanceScore s = Max (score ` {c \<in> set ?used. articleUrl c = s_url s}))"
    if s: "s \<in> set (sources r)" for s
  proof -
    have origin: "\<exists>c \<in> set ?rel. s = toCitation c"
      using prepareSources_origin [of s svc ?srt] s src by simp
    from ps s src obtain c where c: "c \<in> set ?rel" "articleUrl c = s_url s" "score c = relevanceScore s"
      by auto
    have ub: "\<forall>c \<in> set ?rel. articleUrl c = s_url s \<longrightarrow> score c \<le> relevanceScore s"
      using ps s src by auto
    have m1: "relevanceScore s = Max (score ` {c \<in> set ?rel. articleUrl c = s_url s})"
      using Max_score_eq [OF c ub] by simp
    have m2: "relevanceScore s = Max (score ` {c \<in> set ?used. articleUrl c = s_url s})"
      if "\<exists>c \<in> set ?used. articleUrl c = s_url s"
    proof -
      from that obtain cu where cu: "cu \<in> set ?used" "articleUrl cu = s_url s" by blast
      have sub: "set ?used \<subseteq> set ?rel"
        by (rule assembled_chunks_subset)
      have "c \<in> set ?used \<or> score cu = relevanceScore s"
      proof (cases "score cu < score c")
        case True
        then have "c \<in> set (take k ?srt)"
          using sorted_take_higher [OF sortByScore_sorted, of cu k ?rel c] cu(1) c(1) k by simp
        then show ?thesis using k by simp
      next
        case False
        then show ?thesis using ub cu sub c(3) by force
      qed
      then obtain c' where c': "c' \<in> set ?used" "articleUrl c' = s_url s" "score c' = relevanceScore s"
        using c cu by blast
      have "\<forall>c \<in> set ?used. articleUrl c = s_url s \<longrightarrow> score c \<le> relevanceScore s"
        using ub sub by blast
      then show ?thesis
        using Max_score_eq [OF c'] by simp
    qed
    show ?thesis using origin m1 m2 by blast
  qed
  have count: "length (sources r) = min (maxSources svc) (card (articleUrl ` set ?rel))"
    unfolding src using prepareSources_count [of svc ?srt] by simp
  have allc: "s_url ` set (sources r) = articleUrl ` set ?rel"
    if "card (articleUrl ` set ?rel) \<le> maxSources svc"
    unfolding src using prepareSources_all_cited [OF sortByScore_sorted, of ?rel svc] that by simp
  have unc: "score c \<le> relevanceScore s"
    if "c \<in> set ?rel" "articleUrl c \<notin> s_url ` set (sources r)" "s \<in> set (sources r)" for c s
    using prepareSources_uncited [OF sortByScore_sorted, of c ?rel svc s] that unfolding src by simp
  have d: "distinct (map s_url (sources r))"
    and srt: "sorted_wrt (\<lambda>a b. relevanceScore b \<le> relevanceScore a) (sources r)"
    using ps unfolding src by simp_all
  show ?thesis
    using d per srt count allc unc by blast
qed

lemma chunk_fields:
  "score stocksChunk = 0.8" "score oilChunk = 0.9" "score longChunk = 0.75"
  "articleUrl stocksChunk = ''https://bbc.example/a''"
  "articleUrl oilChunk = ''https://bbc.example/a''"
  "articleUrl longChunk = ''https://npr.example/c''"
  by (simp_all add: stocksChunk_def oilChunk_def longChunk_def sampleChunk_def)

lemma crowded_relevant:
  "relevantChunks newRAGService noOptions crowdedHits = crowdedHits"
  by (simp add: relevantChunks_def sample_threshold crowdedHits_def chunk_fields)

lemma crowded_sorted:
  "sortByScore crowdedHits =
     [oilChunk,
      stocksChunk,
      longChunk]"
  by (simp add: sortByScore_def crowdedHits_def chunk_fields)

lemma crowded_context:
  "assembled newRAGService (sampleEnv crowdedHits d) noOptions crowdedHits sampleQuery =
     \<lparr>cw_text = queryContext sampleQuery
         @ renderChunk sampleDate (oilChunk)
         @ renderChunk sampleDate (stocksChunk),
      cw_chunks = [oilChunk,
                   stocksChunk],
      cw_length = 213\<rparr>"
proof -
  have len: "length (queryContext sampleQuery) = 70"
    "length (renderChunk sampleDate (oilChunk)) = 70"
    "length (renderChunk sampleDate (stocksChunk)) = 73"
    "length (renderChunk sampleDate (longChunk)) = 3961"
    by (simp_all add: queryContext_length sampleQuery_def renderChunk_def sampleChunk_def
          stocksChunk_def oilChunk_def longChunk_def sampleDate_def newline_def)
  have fmt: "toLocaleDateString (sampleEnv crowdedHits d) = sampleDate"
    by (simp add: sampleEnv_def)
  show ?thesis
    by (simp add: assembled_def crowded_relevant prepareContext_def crowded_sorted fmt Let_def
          sample_service len)
qed

lemma crowded_sources:
  "prepareSources newRAGService (sortByScore crowdedHits) =
     [toCitation (oilChunk),
      toCitation (longChunk)]"
  by (simp add: crowded_sorted prepareSources_def sample_service chunk_fields)
     (simp add: toCitation_def chunk_fields)

lemma crowded_run:
  "fst (processQuery newRAGService (sampleEnv crowdedHits connectedDb) sampleQuery sampleSession
          noOptions)
   = Inr \<lparr>response = ''Markets rose on Tuesday.'',
          sources = [toCitation (oilChunk),
                     toCitation (longChunk)],
          metadata = \<lparr>processingTime = 250, chunksFound = 3, chunksUsed = 3,
                      contextLength = 213\<rparr>\<rparr>"
proof -
  have ne: "relevantChunks newRAGService noOptions crowdedHits \<noteq> []"
    by (simp add: crowded_relevant) (simp add: crowdedHits_def)
  have gen: "fst (generateResponse (geminiModel (sampleEnv crowdedHits connectedDb)) sampleQuery c)
             = Inr ''Markets rose on Tuesday.''" for c
    by (simp add: generateResponse_def generateAttempt_def sampleEnv_def sampleModel_def
          trim_def isWhiteSpace_def Let_def)
  have facts: "length crowdedHits = 3"
      "endTime (sampleEnv crowdedHits connectedDb) = 1250"
      "startTime (sampleEnv crowdedHits connectedDb) = 1000"
    by (simp_all add: sampleEnv_def crowdedHits_def)
  have len: "length (cw_text (assembled newRAGService (sampleEnv crowdedHits connectedDb) noOptions
                                crowdedHits sampleQuery)) = 213"
    by (simp add: crowded_context)
       (simp add: queryContext_length sampleQuery_def renderChunk_def
          sampleChunk_def stocksChunk_def oilChunk_def sampleDate_def newline_def)
  show ?thesis
    by (simp add: processQuery_match
          [OF sample_embedding' [of crowdedHits connectedDb]
              sample_search [of crowdedHits connectedDb] ne]
          gen len crowded_relevant crowded_sources facts)
qed

text \<open>
  C1 as stated fails: the third chunk does not fit into the context, so the used chunks
  all belong to one article, yet the citation list has a second entry, for the article
  of the chunk that was left out.
\<close>

theorem citations_counterexample:
  "map articleUrl (cw_chunks (assembled newRAGService (sampleEnv crowdedHits connectedDb) noOptions
                                crowdedHits sampleQuery))
     = [''https://bbc.example/a'', ''https://bbc.example/a'']
   \<and> fst (processQuery newRAGService (sampleEnv crowdedHits connectedDb) sampleQuery sampleSession
            noOptions)
     = Inr \<lparr>response = ''Markets rose on Tuesday.'',
            sources = [\<lparr>s_title = ''Markets rally'', s_url = ''https://bbc.example/a'',
                        s_source = ''BBC'', s_pubDate = ''2024-05-01'', relevanceScore = 0.9\<rparr>,
                       \<lparr>s_title = ''Markets rally'', s_url = ''https://npr.example/c'',
                        s_source = ''BBC'', s_pubDate = ''2024-05-01'', relevanceScore = 0.75\<rparr>],
            metadata = \<lparr>processingTime = 250, chunksFound = 3, chunksUsed = 3,
                        contextLength = 213\<rparr>\<rparr>"
  by (simp add: crowded_run crowded_context chunk_fields)
     (simp add: toCitation_def sampleChunk_def oilChunk_def longChunk_def)

theorem citations_amended_witness:
  "fst (processQuery newRAGService (sampleEnv crowdedHits connectedDb) sampleQuery sampleSession
          noOptions)
     = Inr \<lparr>response = ''Markets rose on Tuesday.'',
            sources = [toCitation oilChunk, toCitation longChunk],
            metadata = \<lparr>processingTime = 250, chunksFound = 3, chunksUsed = 3,
                        contextLength = 213\<rparr>\<rparr>
   \<and> relevantChunks newRAGService noOptions crowdedHits = crowdedHits
   \<and> Max (score ` {c \<in> set crowdedHits. articleUrl c = ''https://bbc.example/a''}) = 0.9
   \<and> min (maxSources newRAGService) (card (articleUrl ` set crowdedHits)) = 2"
proof -
  have ne: "relevantChunks newRAGService noOptions crowdedHits \<noteq> []"
    by (simp add: crowded_relevant) (simp add: crowdedHits_def)
  note T = citations_amended
          [OF sample_embedding' [of crowdedHits connectedDb]
              sample_search [of crowdedHits connectedDb] ne crowded_run]
  have first: "toCitation oilChunk \<in> set [toCitation oilChunk, toCitation longChunk]"
    by simp
  have "relevanceScore (toCitation oilChunk)
        = Max (score ` {c \<in> set (relevantChunks newRAGService noOptions crowdedHits).
                 articleUrl c = s_url (toCitation oilChunk)})"
    using T first by (simp del: set_simps)
  then have mx: "Max (score ` {c \<in> set crowdedHits. articleUrl c = ''https://bbc.example/a''}) = 0.9"
    by (simp add: crowded_relevant) (simp add: toCitation_def chunk_fields)
  have "length [toCitation oilChunk, toCitation longChunk]
        = min (maxSources newRAGService)
              (card (articleUrl ` set (relevantChunks newRAGService noOptions crowdedHits)))"
    using T by (simp del: set_simps)
  then have cnt: "min (maxSources newRAGService) (card (articleUrl ` set crowdedHits)) = 2"
    by (simp add: crowded_relevant)
  show ?thesis
    using mx cnt by (simp add: crowded_run crowded_relevant)
qed

section \<open>Properties of streaming generation\<close>

lemma emitted_append: "emitted room (xs @ ys) = emitted room xs @ emitted room ys"
  by (induction room xs rule: emitted.induct) simp_all

lemma streamLoop_result:
  "fst (streamLoop sid fs full) = full @ concat fs
   \<and> emitted sid (snd (streamLoop sid fs full)) = map (\<lambda>f. MessageChunk sid f False None) fs
   \<and> generated (snd (streamLoop sid fs full)) = []"
  by (induction fs arbitrary: full) (simp_all add: case_prod_beta)

text \<open>
  C9. When the stream yields the fragments \<open>fs\<close> and ends, the room of the session
  receives one \<^verbatim>\<open>message-chunk\<close> event with \<^verbatim>\<open>isComplete = false\<close> per fragment, in
  emission order, followed by exactly one event with \<^verbatim>\<open>isComplete = true\<close> whose
  \<^verbatim>\<open>fullResponse\<close> is the concatenation of the fragments, and the call returns that
  text. When the stream fails after yielding \<open>fs\<close> (or the request itself fails), the
  events of the fragments already yielded are followed by one \<^verbatim>\<open>message-error\<close> event
  and the call rethrows the error. In every case the model is called exactly once:
  there is no retry.
\<close>

theorem streamResponse_events:
  "(model (buildPrompt query ctx) = Returns (fs, None) \<longrightarrow>
       fst (streamResponse model sid query ctx) = Inr (concat fs)
       \<and> emitted sid (snd (streamResponse model sid query ctx))
           = map (\<lambda>f. MessageChunk sid f False None) fs
             @ [MessageChunk sid [] True (Some (concat fs))])
   \<and> (model (buildPrompt query ctx) = Returns (fs, Some m) \<longrightarrow>
       fst (streamResponse model sid query ctx) = Inl (ServiceError m)
       \<and> emitted sid (snd (streamResponse model sid query ctx))
           = map (\<lambda>f. MessageChunk sid f False None) fs
             @ [MessageError sid ''Failed to generate response''])
   \<and> (model (buildPrompt query ctx) = Throws m \<longrightarrow>
       fst (streamResponse model sid query ctx) = Inl (ServiceError m)
       \<and> emitted sid (snd (streamResponse model sid query ctx))
           = [MessageError sid ''Failed to generate response''])
   \<and> generated (snd (streamResponse model sid query ctx)) = [buildPrompt query ctx]"
proof -
  have full: "fst (streamLoop sid fs' []) = concat fs'"
       and em: "emitted sid (snd (streamLoop sid fs' [])) = map (\<lambda>f. MessageChunk sid f False None) fs'"
       and gen: "generated (snd (streamLoop sid fs' [])) = []" for fs'
    using streamLoop_result [of sid fs' "[]"] by simp_all
  show ?thesis
    by (cases "model (buildPrompt query ctx)")
       (auto simp: streamResponse_def Let_def case_prod_beta full em gen emitted_append
          generated_append streamFailure_def split: option.splits)
qed

theorem streamResponse_events_witness:
  "streamResponse helloStream sampleSession ''Any news?'' [sampleItem] =
     (Inr ''Hello world'',
      [GenerateContentStream (buildPrompt ''Any news?'' [sampleItem]),
       Emit sampleSession (MessageChunk sampleSession ''Hello'' False None), Sleep 50,
       Emit sampleSession (MessageChunk sampleSession '' world'' False None), Sleep 50,
       Emit sampleSession (MessageChunk sampleSession [] True (Some ''Hello world''))])
   \<and> emitted sampleSession (snd (streamResponse helloStream sampleSession ''Any news?'' [sampleItem]))
     = [MessageChunk sampleSession ''Hello'' False None,
        MessageChunk sampleSession '' world'' False None,
        MessageChunk sampleSession [] True (Some ''Hello world'')]
   \<and> emitted sampleSession (snd (streamResponse brokenStream sampleSession ''Any news?'' [sampleItem]))
     = [MessageChunk sampleSession ''Hello'' False None,
        MessageError sampleSession ''Failed to generate response'']"
  using streamResponse_events
          [of helloStream "''Any news?''" "[sampleItem]" "[''Hello'', '' world'']" sampleSession]
        streamResponse_events
          [of brokenStream "''Any news?''" "[sampleItem]" "[''Hello'']" sampleSession "''fetch failed''"]
  by (simp add: helloStream_def brokenStream_def streamResponse_def Let_def)

section \<open>Properties of the chunker\<close>

lemma trim_length: "length (trim s) \<le> length s"
  unfolding trim_def
  by (metis length_dropWhile_le length_rev le_trans)

lemma trim_trailing_space: "length (trim (xs @ '' '')) \<le> length xs"
proof (cases "\<forall>x \<in> set xs. isWhiteSpace x")
  case True
  then have "dropWhile isWhiteSpace (xs @ '' '') = []"
    by (simp add: isWhiteSpace_def)
  then show ?thesis by (simp add: trim_def)
next
  case False
  then obtain x where "x \<in> set xs" "\<not> isWhiteSpace x" by blast
  then have "dropWhile isWhiteSpace (xs @ '' '') = dropWhile isWhiteSpace xs @ '' ''"
    by (rule dropWhile_append1)
  then have "trim (xs @ '' '') = rev (dropWhile isWhiteSpace (rev (dropWhile isWhiteSpace xs)))"
    by (simp add: trim_def isWhiteSpace_def)
  then have "length (trim (xs @ '' '')) \<le> length (dropWhile isWhiteSpace xs)"
    using length_dropWhile_le [of isWhiteSpace "rev (dropWhile isWhiteSpace xs)"] by simp
  then show ?thesis
    using length_dropWhile_le [of isWhiteSpace xs] by linarith
qed

lemma longest_bound: "s \<in> set ss \<Longrightarrow> length s \<le> longest ss"
  unfolding longest_def by (induction ss) auto

lemma overlapSentences_props:
  "length (overlapSentences ss i) \<le> 2 \<and> set (overlapSentences ss i) \<subseteq> set ss"
  unfolding overlapSentences_def
  by (auto dest: in_set_takeD in_set_dropD)

lemma seed_length:
  assumes "length ov \<le> 2" and "\<forall>s \<in> set ov. length s \<le> m"
  shows "length (join ''. '' ov @ (if length ov > 0 then ''. '' else [])) \<le> 2 * m + 4"
proof (cases ov)
  case Nil
  then show ?thesis by simp
next
  case (Cons x xs)
  note ov = this
  show ?thesis
  proof (cases xs)
    case Nil
    then show ?thesis using ov assms by simp
  next
    case (Cons y ys)
    then have "ys = []" using ov assms(1) by simp
    then show ?thesis using ov Cons assms(2) by simp
  qed
qed

lemma foldl_invariant:
  "P s \<Longrightarrow> (\<And>s i. i \<in> set xs \<Longrightarrow> P s \<Longrightarrow> P (f s i)) \<Longrightarrow> P (foldl f s xs)"
  by (induction xs arbitrary: s) auto

lemma chunkStep_inv:
  assumes i: "i < length ss"
    and m: "m = longest ss"
    and b1: "b1 = max maxChunkSize (m + 1)"
    and b: "b = max maxChunkSize (3 * m + 5)"
    and inv: "chunkInv b1 b st"
  shows "chunkInv b1 b (chunkStep article maxChunkSize ss st i)"
proof -
  obtain cur idx chunks where st: "st = (cur, idx, chunks)" by (cases st)
  define sentence where "sentence = trim (ss ! i) @ ''.''"
  have "length (trim (ss ! i)) \<le> m"
    using trim_length [of "ss ! i"] longest_bound [of "ss ! i" ss] i m by simp
  then have sl: "length sentence \<le> m + 1" by (simp add: sentence_def)
  have b1b: "b1 \<le> b" using b1 b by simp
  from inv st have buf: "cur = [] \<or> (\<exists>xs. cur = xs @ '' '' \<and> length xs \<le> b
                                  \<and> (idx = 0 \<longrightarrow> length xs \<le> b1))"
    and old: "\<forall>c \<in> set chunks. length (c_text c) \<le> b \<and> c_chunkIndex c < idx
               \<and> (c_chunkIndex c = 0 \<longrightarrow> length (c_text c) \<le> b1)"
    by (simp_all add: chunkInv_def)
  show ?thesis
  proof (cases "length cur + length sentence > maxChunkSize \<and> length cur > 0")
    case True
    define ov where "ov = overlapSentences ss i"
    define seeded where "seeded = join ''. '' ov @ (if length ov > 0 then ''. '' else [])"
    have "\<forall>s \<in> set ov. length s \<le> m"
      using overlapSentences_props [of ss i] longest_bound [of _ ss] m ov_def by blast
    then have "length seeded \<le> 2 * m + 4"
      unfolding seeded_def using seed_length [of ov m] overlapSentences_props [of ss i] ov_def
      by blast
    then have new: "length (seeded @ sentence) \<le> b"
      using sl b by simp
    from True buf obtain xs where xs: "cur = xs @ '' ''" "length xs \<le> b"
        "idx = 0 \<longrightarrow> length xs \<le> b1"
      by auto
    have tl: "length (trim cur) \<le> length xs"
      using trim_trailing_space [of xs] xs(1) by simp
    have step: "chunkStep article maxChunkSize ss st i =
        ((seeded @ sentence) @ '' '', idx + 1, chunks @ [mkChunk article idx (trim cur)])"
      using True by (simp add: chunkStep_def st sentence_def Let_def ov_def seeded_def)
    have emitted: "length (c_text (mkChunk article idx (trim cur))) \<le> b"
        "c_chunkIndex (mkChunk article idx (trim cur)) = idx"
        "idx = 0 \<longrightarrow> length (c_text (mkChunk article idx (trim cur))) \<le> b1"
      using tl xs by (auto simp: mkChunk_def)
    show ?thesis
      unfolding step chunkInv_def using new old emitted by auto
  next
    case False
    have step: "chunkStep article maxChunkSize ss st i = ((cur @ sentence) @ '' '', idx, chunks)"
      using False by (simp add: chunkStep_def st sentence_def Let_def)
    have "length (cur @ sentence) \<le> b1"
    proof (cases "cur = []")
      case True
      then show ?thesis using sl b1 by simp
    next
      case False
      then have "length cur + length sentence \<le> maxChunkSize"
        using \<open>\<not> (length cur + length sentence > maxChunkSize \<and> length cur > 0)\<close> by simp
      then show ?thesis using b1 by simp
    qed
    then have "length (cur @ sentence) \<le> b \<and> (idx = 0 \<longrightarrow> length (cur @ sentence) \<le> b1)"
      using b1b by simp
    then show ?thesis
      unfolding step chunkInv_def using old by auto
  qed
qed

lemma chunkInv_init: "chunkInv b1 b ([], 0, [])"
  by (simp add: chunkInv_def)

text \<open>
  What the chunker does guarantee. With \<open>L\<close> the length of the longest sentence of
  the text, every chunk has at most \<open>max maxChunkSize (3 * L + 5)\<close> characters (a
  buffer seeded with two overlap sentences takes one more sentence unchecked), and
  the chunk with index 0, whose buffer has no overlap seed, has at most
  \<open>max maxChunkSize (L + 1)\<close>.
\<close>

lemma chunkText_bound:
  "\<forall>c \<in> set (chunkText t article maxChunkSize).
      length (c_text c) \<le> max maxChunkSize (3 * longest (sentencesOf t) + 5)
      \<and> (c_chunkIndex c = 0 \<longrightarrow>
           length (c_text c) \<le> max maxChunkSize (longest (sentencesOf t) + 1))"
proof (cases "t = [] \<or> length t < 100")
  case True
  then show ?thesis by (simp add: chunkText_def)
next
  case False
  define ss where "ss = sentencesOf t"
  define b1 where "b1 = max maxChunkSize (longest ss + 1)"
  define b where "b = max maxChunkSize (3 * longest ss + 5)"
  define final where "final = foldl (chunkStep article maxChunkSize ss) ([], 0, []) [0 ..< length ss]"
  have inv: "chunkInv b1 b final"
    unfolding final_def
  proof (rule foldl_invariant)
    show "chunkInv b1 b ([], 0, [])" by (rule chunkInv_init)
  next
    fix s i
    assume "i \<in> set [0 ..< length ss]" and s: "chunkInv b1 b s"
    then have "i < length ss" by simp
    then show "chunkInv b1 b (chunkStep article maxChunkSize ss s i)"
      using refl b1_def b_def s by (rule chunkStep_inv)
  qed
  obtain cur idx chunks where fin: "final = (cur, idx, chunks)" by (cases final)
  from inv fin have buf: "cur = [] \<or> (\<exists>xs. cur = xs @ '' '' \<and> length xs \<le> b
                                  \<and> (idx = 0 \<longrightarrow> length xs \<le> b1))"
    and old: "\<forall>c \<in> set chunks. length (c_text c) \<le> b \<and> c_chunkIndex c < idx
               \<and> (c_chunkIndex c = 0 \<longrightarrow> length (c_text c) \<le> b1)"
    by (simp_all add: chunkInv_def)
  have fin_len: "length (trim cur) \<le> b \<and> (idx = 0 \<longrightarrow> length (trim cur) \<le> b1)"
  proof (cases "cur = []")
    case True
    then show ?thesis by (simp add: trim_def)
  next
    case False
    then obtain xs where xs: "cur = xs @ '' ''" "length xs \<le> b" "idx = 0 \<longrightarrow> length xs \<le> b1"
      using buf by auto
    then show ?thesis
      using trim_trailing_space [of xs] by auto
  qed
  have res: "chunkText t article maxChunkSize =
        (if length (trim cur) > 50 then chunks @ [mkChunk article idx (trim cur)] else chunks)"
  proof -
    have "chunkText t article maxChunkSize =
        (case final of (currentChunk, chunkIndex, chunks) \<Rightarrow>
             if length (trim currentChunk) > 50
             then chunks @ [mkChunk article chunkIndex (trim currentChunk)]
             else chunks)"
      using False unfolding chunkText_def Let_def final_def ss_def by simp
    then show ?thesis by (simp add: fin)
  qed
  have "\<forall>c \<in> set (chunkText t article maxChunkSize).
      length (c_text c) \<le> b \<and> (c_chunkIndex c = 0 \<longrightarrow> length (c_text c) \<le> b1)"
    unfolding res
  proof
    fix c
    assume "c \<in> set (if length (trim cur) > 50 then chunks @ [mkChunk article idx (trim cur)]
                      else chunks)"
    then consider "c \<in> set chunks" | "c = mkChunk article idx (trim cur)"
      by (auto split: if_splits)
    then show "length (c_text c) \<le> b \<and> (c_chunkIndex c = 0 \<longrightarrow> length (c_text c) \<le> b1)"
    proof cases
      case 1
      then show ?thesis using old by blast
    next
      case 2
      then have "c_text c = trim cur" "c_chunkIndex c = idx"
        by (simp_all add: mkChunk_def)
      then show ?thesis using fin_len by simp
    qed
  qed
  then show ?thesis
    unfolding b_def b1_def ss_def .
qed

lemma three_long_sentences:
  "map length (sentencesOf threeLongSentences) = [400, 400, 400]"
  by code_simp

text \<open>
  C8. The bound of \<^verbatim>\<open>maxChunkSize\<close> plus one trailing sentence is not kept for chunks
  whose buffer was seeded with the overlap: the seed (the last two sentences, of any
  length; the parameter \<^verbatim>\<open>overlap = 50\<close> is never read) and the next sentence are
  put into the buffer without comparing it with \<^verbatim>\<open>maxChunkSize\<close>. For a cleaned text
  of three sentences of 400 characters and the default size 500, the chunks have 401,
  803 and 1205 characters, while 500 plus one sentence with its full stop is 901.
\<close>

theorem chunkText_overflow:
  "chunkLengths (chunkText threeLongSentences sampleArticle 500) = [401, 803, 1205]
   \<and> map length (sentencesOf threeLongSentences) = [400, 400, 400]
   \<and> length threeLongSentences = 1203"
proof -
  have "chunkLengths (chunkText threeLongSentences sampleArticle 500) = [401, 803, 1205]"
    by code_simp
  moreover have "length threeLongSentences = 1203"
    by (simp add: threeLongSentences_def longSentence_def)
  ultimately show ?thesis
    using three_long_sentences by simp
qed

end
